theory Spec2Isabelle
  imports Complex_Main
begin

section \<open>Python values used by the metrics and risk engine\<close>

text \<open>
  The engine works on JSON-like dictionaries. A dictionary with a known set of keys is a
  record whose fields are options: \<open>None\<close> says that the key is absent (for a key that the
  code only reads with \<open>.get(key)\<close>, a key holding Python's \<open>None\<close> behaves the same).
  A dictionary that is built key by key (\<open>cards_by_list\<close>, \<open>cards_by_member\<close>,
  \<open>list_map\<close>) is an association list in insertion order with distinct keys, which is what
  iterating a Python \<open>dict\<close> observes.  Counts are natural numbers.  Python floats are
  represented by exact rationals: the quotients and products below are the exact ones.
\<close>

type_synonym ('k, 'v) dict = "('k \<times> 'v) list"

fun dict_get :: "('k, 'v) dict \<Rightarrow> 'k \<Rightarrow> 'v option" where
  "dict_get [] k = None"
| "dict_get ((k', v) # d) k = (if k' = k then Some v else dict_get d k)"

text \<open>\<open>d[k] = v\<close>: a present key keeps its position, a new key goes to the end.\<close>

fun dict_set :: "('k, 'v) dict \<Rightarrow> 'k \<Rightarrow> 'v \<Rightarrow> ('k, 'v) dict" where
  "dict_set [] k v = [(k, v)]"
| "dict_set ((k', v') # d) k v = (if k' = k then (k, v) # d else (k', v') # dict_set d k v)"

definition dict_get_default :: "('k, 'v) dict \<Rightarrow> 'k \<Rightarrow> 'v \<Rightarrow> 'v" where
  "dict_get_default d k dflt = (case dict_get d k of None \<Rightarrow> dflt | Some v \<Rightarrow> v)"

definition dict_keys :: "('k, 'v) dict \<Rightarrow> 'k list" where
  "dict_keys d = map fst d"

definition dict_values :: "('k, 'v) dict \<Rightarrow> 'v list" where
  "dict_values d = map snd d"

text \<open>Exceptions that the code can raise on the modelled inputs, and \<open>str(e)\<close>.\<close>

datatype exn = KeyError string

fun str_exn :: "exn \<Rightarrow> string" where
  "str_exn (KeyError k) = [CHR 0x27] @ k @ [CHR 0x27]"

text \<open>Truthiness of an optional string (\<open>if list_id\<close>, \<open>if due_date_str\<close>).\<close>

fun truthy_str :: "string option \<Rightarrow> bool" where
  "truthy_str None = False"
| "truthy_str (Some s) = (s \<noteq> [])"

text \<open>\<open>str.lower\<close> on the letters A to Z, and the substring test \<open>sub in s\<close>.\<close>

definition lower_char :: "char \<Rightarrow> char" where
  "lower_char ch =
     (case map_of (zip ''ABCDEFGHIJKLMNOPQRSTUVWXYZ'' ''abcdefghijklmnopqrstuvwxyz'') ch of
        None \<Rightarrow> ch
      | Some l \<Rightarrow> l)"

definition lower :: "string \<Rightarrow> string" where
  "lower s = map lower_char s"

fun starts_with :: "string \<Rightarrow> string \<Rightarrow> bool" where
  "starts_with [] s = True"
| "starts_with (p # ps) [] = False"
| "starts_with (p # ps) (x # xs) = (p = x \<and> starts_with ps xs)"

fun str_contains :: "string \<Rightarrow> string \<Rightarrow> bool" where
  "str_contains sub [] = (sub = [])"
| "str_contains sub (x # xs) = (starts_with sub (x # xs) \<or> str_contains sub xs)"

text \<open>\<open>s.replace("Z", "+00:00")\<close>.\<close>

definition replace_Z :: "string \<Rightarrow> string" where
  "replace_Z s = concat (map (\<lambda>ch. if ch = CHR ''Z'' then ''+00:00'' else [ch]) s)"

text \<open>
  A \<open>datetime\<close> is naive or timezone-aware; the integer counts microseconds.
  \<open>datetime.now()\<close> is naive.  Ordering a naive against an aware value raises
  \<open>TypeError\<close>, written \<open>None\<close>.  \<open>datetime.fromisoformat\<close> is a parameter
  \<open>parse\<close> of the functions below; \<open>None\<close> is its \<open>ValueError\<close>.
\<close>

datatype datetime = Naive int | Aware int

fun dt_less :: "datetime \<Rightarrow> datetime \<Rightarrow> bool option" where
  "dt_less (Naive a) (Naive b) = Some (a < b)"
| "dt_less (Aware a) (Aware b) = Some (a < b)"
| "dt_less (Naive a) (Aware b) = None"
| "dt_less (Aware a) (Naive b) = None"

fun dt_le :: "datetime \<Rightarrow> datetime \<Rightarrow> bool option" where
  "dt_le (Naive a) (Naive b) = Some (a \<le> b)"
| "dt_le (Aware a) (Aware b) = Some (a \<le> b)"
| "dt_le (Naive a) (Aware b) = None"
| "dt_le (Aware a) (Naive b) = None"

definition three_days :: int where
  "three_days = 3 * 24 * 60 * 60 * 1000000"

type_synonym iso_parser = "string \<Rightarrow> datetime option"

section \<open>Data model\<close>

record label =
  lb_color :: "string option"
  lb_name :: "string option"

record comment =
  cm_id :: "string option"
  cm_text :: "string option"
  cm_date :: "string option"
  cm_memberCreator :: "string option"

record action_data =
  ad_text :: "string option"

record action =
  ac_type :: "string option"
  ac_id :: "string option"
  ac_data :: "action_data option"
  ac_date :: "string option"
  ac_memberCreator :: "string option"

record member_ref =
  mr_id :: string
  mr_name :: string

text \<open>
  One record for a card dictionary, raw or normalized: the keys of the raw Trello card
  (\<open>idMembers\<close>, \<open>actions\<close>) and the keys that the normalizer writes (\<open>listName\<close>,
  \<open>members\<close>, \<open>comments\<close>, \<open>isComplete\<close>, \<open>isBlocker\<close>, \<open>blockerReason\<close>).
\<close>

record trello_card =
  c_id :: "string option"
  c_name :: "string option"
  c_desc :: "string option"
  c_url :: "string option"
  c_idList :: "string option"
  c_listName :: "string option"
  c_due :: "string option"
  c_dueComplete :: "bool option"
  c_dateLastActivity :: "string option"
  c_labels :: "label list option"
  c_idMembers :: "string list option"
  c_members :: "member_ref list option"
  c_actions :: "action list option"
  c_comments :: "comment list option"
  c_attachments :: "string list option"
  c_isComplete :: "bool option"
  c_isBlocker :: "bool option"
  c_blockerReason :: "string option"

record list_data =
  l_id :: "string option"
  l_name :: "string option"
  l_pos :: "rat option"
  l_closed :: "bool option"

record member =
  mb_id :: "string option"
  mb_fullName :: "string option"
  mb_username :: "string option"

text \<open>\<open>card.get("labels", [])\<close> and the like.\<close>

definition get_list :: "'a list option \<Rightarrow> 'a list" where
  "get_list v = (case v of None \<Rightarrow> [] | Some xs \<Rightarrow> xs)"

definition get_bool :: "bool option \<Rightarrow> bool" where
  "get_bool v = (case v of None \<Rightarrow> False | Some b \<Rightarrow> b)"

definition get_str :: "string option \<Rightarrow> string \<Rightarrow> string" where
  "get_str v dflt = (case v of None \<Rightarrow> dflt | Some s \<Rightarrow> s)"

section \<open>Metrics calculator: \<open>calculate_sprint_metrics\<close>\<close>

record blocker_entry =
  be_id :: "string option"
  be_name :: "string option"
  be_url :: "string option"
  be_list :: string

record deadline_entry =
  de_id :: "string option"
  de_name :: "string option"
  de_due :: string
  de_list :: string

record sprint_metrics =
  sm_error :: "string option"
  sm_total_cards :: nat
  sm_cards_by_list :: "(string, nat) dict"
  sm_completion_rate :: rat
  sm_blockers :: "blocker_entry list"
  sm_approaching_deadlines :: "deadline_entry list"
  sm_overdue_cards :: "deadline_entry list"
  sm_blockers_count :: nat
  sm_approaching_deadlines_count :: nat
  sm_overdue_count :: nat

text \<open>\<open>list_map = {list_data["id"]: list_data["name"] for list_data in lists}\<close>;
  a missing key raises \<open>KeyError\<close>.\<close>

fun list_name_map :: "list_data list \<Rightarrow> (string, string) dict \<Rightarrow> exn + (string, string) dict" where
  "list_name_map [] m = Inr m"
| "list_name_map (l # ls) m =
     (case l_id l of
        None \<Rightarrow> Inl (KeyError ''id'')
      | Some i \<Rightarrow>
          (case l_name l of
             None \<Rightarrow> Inl (KeyError ''name'')
           | Some n \<Rightarrow> list_name_map ls (dict_set m i n)))"

text \<open>\<open>for list_data in lists: cards_by_list[list_data["name"]] = 0\<close>.\<close>

fun zero_counts :: "list_data list \<Rightarrow> (string, nat) dict \<Rightarrow> exn + (string, nat) dict" where
  "zero_counts [] d = Inr d"
| "zero_counts (l # ls) d =
     (case l_name l of
        None \<Rightarrow> Inl (KeyError ''name'')
      | Some n \<Rightarrow> zero_counts ls (dict_set d n 0))"

text \<open>One round of the counting loop: \<open>if list_id and list_id in list_map\<close>.\<close>

definition count_card :: "(string, string) dict \<Rightarrow> trello_card \<Rightarrow> (string, nat) dict \<Rightarrow> (string, nat) dict" where
  "count_card list_map c cards_by_list =
     (case c_idList c of
        None \<Rightarrow> cards_by_list
      | Some list_id \<Rightarrow>
          if list_id \<noteq> [] then
            (case dict_get list_map list_id of
               None \<Rightarrow> cards_by_list
             | Some list_name \<Rightarrow>
                 dict_set cards_by_list list_name (dict_get_default cards_by_list list_name 0 + 1))
          else cards_by_list)"

text \<open>\<open>list_map.get(card.get("idList"), "Unknown")\<close>.\<close>

definition entry_list_name :: "(string, string) dict \<Rightarrow> trello_card \<Rightarrow> string" where
  "entry_list_name list_map c =
     (case c_idList c of
        None \<Rightarrow> ''Unknown''
      | Some list_id \<Rightarrow> dict_get_default list_map list_id ''Unknown'')"

definition is_red :: "label \<Rightarrow> bool" where
  "is_red lb = (lb_color lb = Some ''red'')"

definition mentions_blocker :: "comment \<Rightarrow> bool" where
  "mentions_blocker cm = str_contains ''blocker'' (lower (get_str (cm_text cm) []))"

text \<open>The two loops with \<open>break\<close> that set \<open>is_blocker\<close>: labels first, then comments.\<close>

definition metrics_is_blocker :: "trello_card \<Rightarrow> bool" where
  "metrics_is_blocker c =
     (if list_ex is_red (get_list (c_labels c)) then True
      else list_ex mentions_blocker (get_list (c_comments c)))"

definition blocker_entry_of :: "(string, string) dict \<Rightarrow> trello_card \<Rightarrow> blocker_entry" where
  "blocker_entry_of list_map c =
     \<lparr>be_id = c_id c, be_name = c_name c, be_url = c_url c,
      be_list = entry_list_name list_map c\<rparr>"

text \<open>
  The test of the approaching-deadline loop.  The chained comparison
  \<open>now < due_date <= three_days_from_now\<close> stops at its first false part; a \<open>ValueError\<close>
  of the parser or a \<open>TypeError\<close> of a comparison is caught inside the loop and the card
  is skipped.
\<close>

definition is_approaching :: "iso_parser \<Rightarrow> int \<Rightarrow> trello_card \<Rightarrow> bool" where
  "is_approaching parse now c =
     (case c_due c of
        None \<Rightarrow> False
      | Some due_date_str \<Rightarrow>
          if due_date_str = [] then False
          else
            (case parse (replace_Z due_date_str) of
               None \<Rightarrow> False
             | Some due_date \<Rightarrow>
                 (case dt_less (Naive now) due_date of
                    None \<Rightarrow> False
                  | Some after_now \<Rightarrow>
                      if after_now then
                        (case dt_le due_date (Naive (now + three_days)) of
                           None \<Rightarrow> False
                         | Some in_window \<Rightarrow> in_window \<and> \<not> get_bool (c_dueComplete c))
                      else False)))"

definition is_overdue :: "iso_parser \<Rightarrow> int \<Rightarrow> trello_card \<Rightarrow> bool" where
  "is_overdue parse now c =
     (case c_due c of
        None \<Rightarrow> False
      | Some due_date_str \<Rightarrow>
          if due_date_str = [] then False
          else
            (case parse (replace_Z due_date_str) of
               None \<Rightarrow> False
             | Some due_date \<Rightarrow>
                 (case dt_less due_date (Naive now) of
                    None \<Rightarrow> False
                  | Some past \<Rightarrow> past \<and> \<not> get_bool (c_dueComplete c))))"

definition deadline_entry_of :: "(string, string) dict \<Rightarrow> trello_card \<Rightarrow> deadline_entry" where
  "deadline_entry_of list_map c =
     \<lparr>de_id = c_id c, de_name = c_name c, de_due = get_str (c_due c) [],
      de_list = entry_list_name list_map c\<rparr>"

text \<open>The dictionary returned by the \<open>except Exception\<close> branch.\<close>

definition metrics_failed :: "exn \<Rightarrow> sprint_metrics" where
  "metrics_failed e =
     \<lparr>sm_error = Some (str_exn e), sm_total_cards = 0, sm_cards_by_list = [],
      sm_completion_rate = 0, sm_blockers = [], sm_approaching_deadlines = [],
      sm_overdue_cards = [], sm_blockers_count = 0, sm_approaching_deadlines_count = 0,
      sm_overdue_count = 0\<rparr>"

text \<open>\<open>now\<close> is the one reading of \<open>datetime.now()\<close> that the function takes.\<close>

definition calculate_sprint_metrics ::
  "iso_parser \<Rightarrow> int \<Rightarrow> trello_card list \<Rightarrow> list_data list \<Rightarrow> sprint_metrics" where
  "calculate_sprint_metrics parse now cards lsts =
     (case list_name_map lsts [] of
        Inl e \<Rightarrow> metrics_failed e
      | Inr list_map \<Rightarrow>
          (case zero_counts lsts [] of
             Inl e \<Rightarrow> metrics_failed e
           | Inr zeros \<Rightarrow>
               (let cards_by_list = fold (count_card list_map) cards zeros;
                    total_cards = length cards;
                    completed_cards = dict_get_default cards_by_list ''Done'' 0;
                    completion_rate =
                      (if total_cards > 0
                       then (of_nat completed_cards / of_nat total_cards) * 100 else 0);
                    blockers = map (blocker_entry_of list_map) (filter metrics_is_blocker cards);
                    approaching_deadlines =
                      map (deadline_entry_of list_map) (filter (is_approaching parse now) cards);
                    overdue_cards =
                      map (deadline_entry_of list_map) (filter (is_overdue parse now) cards)
                in \<lparr>sm_error = None, sm_total_cards = total_cards,
                    sm_cards_by_list = cards_by_list, sm_completion_rate = completion_rate,
                    sm_blockers = blockers, sm_approaching_deadlines = approaching_deadlines,
                    sm_overdue_cards = overdue_cards, sm_blockers_count = length blockers,
                    sm_approaching_deadlines_count = length approaching_deadlines,
                    sm_overdue_count = length overdue_cards\<rparr>)))"

section \<open>Team performance analyzer: \<open>analyze_team_performance\<close>\<close>

record assigned_card =
  asg_id :: "string option"
  asg_name :: "string option"
  asg_due :: "string option"
  asg_listName :: string

record member_stats =
  ms_total :: nat
  ms_completed :: nat
  ms_overdue :: nat
  ms_cards :: "assigned_card list"
  ms_completion_rate :: "rat option"

record workload_entry =
  we_name :: string
  we_cards_count :: nat
  we_avg_ratio :: rat

record team_performance =
  tp_error :: "string option"
  tp_cards_by_member :: "(string, member_stats) dict"
  tp_avg_cards_per_member :: rat
  tp_members_with_high_workload :: "workload_entry list"
  tp_member_count :: nat

text \<open>\<open>member.get("fullName", member.get("username", "Unknown"))\<close>.\<close>

definition display_name :: "member \<Rightarrow> string" where
  "display_name m = get_str (mb_fullName m) (get_str (mb_username m) ''Unknown'')"

fun member_name_map :: "member list \<Rightarrow> (string, string) dict \<Rightarrow> exn + (string, string) dict" where
  "member_name_map [] m = Inr m"
| "member_name_map (mb # mbs) m =
     (case mb_id mb of
        None \<Rightarrow> Inl (KeyError ''id'')
      | Some i \<Rightarrow> member_name_map mbs (dict_set m i (display_name mb)))"

definition new_member_stats :: member_stats where
  "new_member_stats =
     \<lparr>ms_total = 0, ms_completed = 0, ms_overdue = 0, ms_cards = [], ms_completion_rate = None\<rparr>"

text \<open>
  The overdue test of one assignment.  \<open>datetime.now()\<close> is read anew in every round whose
  due date parses: \<open>clock k\<close> is the \<open>k\<close>-th reading taken by this call, and the second
  component is the number of readings taken so far.
\<close>

definition assignment_overdue :: "iso_parser \<Rightarrow> (nat \<Rightarrow> int) \<Rightarrow> trello_card \<Rightarrow> nat \<Rightarrow> bool \<times> nat" where
  "assignment_overdue parse clock c k =
     (case c_due c of
        None \<Rightarrow> (False, k)
      | Some due_date_str \<Rightarrow>
          if due_date_str = [] then (False, k)
          else
            (case parse (replace_Z due_date_str) of
               None \<Rightarrow> (False, k)
             | Some due_date \<Rightarrow>
                 (case dt_less due_date (Naive (clock k)) of
                    None \<Rightarrow> (False, Suc k)
                  | Some past \<Rightarrow> (past \<and> \<not> get_bool (c_dueComplete c), Suc k))))"

text \<open>The body of \<open>for member_id in card_members\<close>.\<close>

definition assign_member ::
  "iso_parser \<Rightarrow> (nat \<Rightarrow> int) \<Rightarrow> (string, string) dict \<Rightarrow> trello_card \<Rightarrow> string \<Rightarrow>
   (string, member_stats) dict \<times> nat \<Rightarrow> (string, member_stats) dict \<times> nat" where
  "assign_member parse clock member_map c member_id st =
     (let cards_by_member = fst st;
          member_name = dict_get_default member_map member_id ''Unknown'';
          stats = dict_get_default cards_by_member member_name new_member_stats;
          od = assignment_overdue parse clock c (snd st);
          stats' =
            \<lparr>ms_total = ms_total stats + 1,
             ms_completed =
               (if c_listName c = Some ''Done'' then ms_completed stats + 1 else ms_completed stats),
             ms_overdue = (if fst od then ms_overdue stats + 1 else ms_overdue stats),
             ms_cards = ms_cards stats @
               [\<lparr>asg_id = c_id c, asg_name = c_name c, asg_due = c_due c,
                 asg_listName = get_str (c_listName c) ''Unknown''\<rparr>],
             ms_completion_rate = ms_completion_rate stats\<rparr>
      in (dict_set cards_by_member member_name stats', snd od))"

definition assign_card ::
  "iso_parser \<Rightarrow> (nat \<Rightarrow> int) \<Rightarrow> (string, string) dict \<Rightarrow> trello_card \<Rightarrow>
   (string, member_stats) dict \<times> nat \<Rightarrow> (string, member_stats) dict \<times> nat" where
  "assign_card parse clock member_map c st =
     fold (assign_member parse clock member_map c) (get_list (c_idMembers c)) st"

definition with_completion_rate :: "member_stats \<Rightarrow> member_stats" where
  "with_completion_rate stats =
     stats\<lparr>ms_completion_rate :=
       Some (if ms_total stats > 0
             then (of_nat (ms_completed stats) / of_nat (ms_total stats)) * 100 else 0)\<rparr>"

definition team_failed :: "exn \<Rightarrow> team_performance" where
  "team_failed e =
     \<lparr>tp_error = Some (str_exn e), tp_cards_by_member = [], tp_avg_cards_per_member = 0,
      tp_members_with_high_workload = [], tp_member_count = 0\<rparr>"

definition high_workload ::
  "(string, member_stats) dict \<Rightarrow> rat \<Rightarrow> workload_entry list" where
  "high_workload cards_by_member avg_assignments =
     map (\<lambda>(member_name, stats).
            \<lparr>we_name = member_name, we_cards_count = ms_total stats,
             we_avg_ratio =
               (if avg_assignments > 0 then of_nat (ms_total stats) / avg_assignments else 0)\<rparr>)
       (filter (\<lambda>(member_name, stats). of_nat (ms_total stats) > avg_assignments * (3 / 2))
          cards_by_member)"

text \<open>The second component is the number of clock readings the call has taken.\<close>

definition analyze_team_performance_clocked ::
  "iso_parser \<Rightarrow> (nat \<Rightarrow> int) \<Rightarrow> trello_card list \<Rightarrow> member list \<Rightarrow> team_performance \<times> nat" where
  "analyze_team_performance_clocked parse clock cards mbs =
     (case member_name_map mbs [] of
        Inl e \<Rightarrow> (team_failed e, 0)
      | Inr member_map \<Rightarrow>
          (let st = fold (assign_card parse clock member_map) cards ([], 0);
               cards_by_member = map (\<lambda>(member_name, stats). (member_name, with_completion_rate stats)) (fst st);
               total_assignments = sum_list (map (\<lambda>(member_name, stats). ms_total stats) cards_by_member);
               avg_assignments =
                 (if cards_by_member \<noteq> []
                  then of_nat total_assignments / of_nat (length cards_by_member) else 0)
           in (\<lparr>tp_error = None, tp_cards_by_member = cards_by_member,
                tp_avg_cards_per_member = avg_assignments,
                tp_members_with_high_workload = high_workload cards_by_member avg_assignments,
                tp_member_count = length cards_by_member\<rparr>, snd st)))"

definition analyze_team_performance ::
  "iso_parser \<Rightarrow> (nat \<Rightarrow> int) \<Rightarrow> trello_card list \<Rightarrow> member list \<Rightarrow> team_performance" where
  "analyze_team_performance parse clock cards mbs =
     fst (analyze_team_performance_clocked parse clock cards mbs)"

section \<open>Bottleneck detector: \<open>identify_process_bottlenecks\<close>\<close>

record list_info =
  li_name :: string
  li_pos :: rat

record bottleneck =
  bn_list_name :: string
  bn_card_count :: nat
  bn_ratio_to_avg :: rat

record process_bottlenecks =
  pb_error :: "string option"
  pb_cards_by_list :: "(string, nat) dict"
  pb_avg_cards_per_list :: rat
  pb_bottlenecks :: "bottleneck list"

text \<open>
  \<open>list_map[list_data["id"]] = {"name": list_data["name"], "pos": list_data.get("pos", 0)}\<close>:
  the right-hand side is evaluated first.
\<close>

fun list_info_map :: "list_data list \<Rightarrow> (string, list_info) dict \<Rightarrow> exn + (string, list_info) dict" where
  "list_info_map [] m = Inr m"
| "list_info_map (l # ls) m =
     (case l_name l of
        None \<Rightarrow> Inl (KeyError ''name'')
      | Some n \<Rightarrow>
          (case l_id l of
             None \<Rightarrow> Inl (KeyError ''id'')
           | Some i \<Rightarrow>
               list_info_map ls
                 (dict_set m i \<lparr>li_name = n, li_pos = (case l_pos l of None \<Rightarrow> 0 | Some p \<Rightarrow> p)\<rparr>)))"

definition count_card_info ::
  "(string, list_info) dict \<Rightarrow> trello_card \<Rightarrow> (string, nat) dict \<Rightarrow> (string, nat) dict" where
  "count_card_info list_map c cards_by_list =
     (case c_idList c of
        None \<Rightarrow> cards_by_list
      | Some list_id \<Rightarrow>
          if list_id \<noteq> [] then
            (case dict_get list_map list_id of
               None \<Rightarrow> cards_by_list
             | Some info \<Rightarrow>
                 dict_set cards_by_list (li_name info)
                   (dict_get_default cards_by_list (li_name info) 0 + 1))
          else cards_by_list)"

definition bottlenecks_of :: "(string, nat) dict \<Rightarrow> rat \<Rightarrow> bottleneck list" where
  "bottlenecks_of cards_by_list avg_cards_per_list =
     map (\<lambda>(list_name, count).
            \<lparr>bn_list_name = list_name, bn_card_count = count,
             bn_ratio_to_avg =
               (if avg_cards_per_list > 0 then of_nat count / avg_cards_per_list else 0)\<rparr>)
       (filter (\<lambda>(list_name, count). of_nat count > avg_cards_per_list * (3 / 2)) cards_by_list)"

definition bottlenecks_failed :: "exn \<Rightarrow> process_bottlenecks" where
  "bottlenecks_failed e =
     \<lparr>pb_error = Some (str_exn e), pb_cards_by_list = [], pb_avg_cards_per_list = 0,
      pb_bottlenecks = []\<rparr>"

text \<open>
  \<open>sorted_lists\<close> and \<open>list_order\<close> are computed by the source and never read; once
  \<open>list_map\<close> is built they cannot raise, and they are left out.
\<close>

definition identify_process_bottlenecks :: "trello_card list \<Rightarrow> list_data list \<Rightarrow> process_bottlenecks" where
  "identify_process_bottlenecks cards lsts =
     (case list_info_map lsts [] of
        Inl e \<Rightarrow> bottlenecks_failed e
      | Inr list_map \<Rightarrow>
          (let zeros = fold (\<lambda>(list_id, info) d. dict_set d (li_name info) 0) list_map [];
               cards_by_list = fold (count_card_info list_map) cards zeros;
               avg_cards_per_list =
                 (if cards_by_list \<noteq> []
                  then of_nat (sum_list (dict_values cards_by_list)) / of_nat (length cards_by_list)
                  else 0)
           in \<lparr>pb_error = None, pb_cards_by_list = cards_by_list,
               pb_avg_cards_per_list = avg_cards_per_list,
               pb_bottlenecks = bottlenecks_of cards_by_list avg_cards_per_list\<rparr>))"

section \<open>Board snapshot normalizer: \<open>DataCollectionAgent\<close>\<close>

text \<open>
  The snapshot dictionary, as fetched (\<open>board_data\<close>) and as normalized
  (\<open>processed_data\<close>).  A failed fetch is the dictionary with the one key \<open>error\<close>.
\<close>

record snapshot =
  s_error :: "string option"
  s_board_id :: "string option"
  s_cards :: "trello_card list option"
  s_lists :: "list_data list option"
  s_members :: "member list option"
  s_cards_by_list :: "(string, trello_card list) dict option"
  s_timestamp :: "rat option"
  s_status :: "string option"

text \<open>\<open>not board_data\<close>: the dictionary has no key.\<close>

definition snapshot_is_empty :: "snapshot \<Rightarrow> bool" where
  "snapshot_is_empty d =
     (s_error d = None \<and> s_board_id d = None \<and> s_cards d = None \<and> s_lists d = None \<and>
      s_members d = None \<and> s_cards_by_list d = None \<and> s_timestamp d = None \<and> s_status d = None)"

text \<open>\<open>{"error": error_msg}\<close>.\<close>

definition error_snapshot :: "string \<Rightarrow> snapshot" where
  "error_snapshot msg =
     \<lparr>s_error = Some msg, s_board_id = None, s_cards = None, s_lists = None, s_members = None,
      s_cards_by_list = None, s_timestamp = None, s_status = None\<rparr>"

text \<open>The list name of a card: \<open>list_map[list_id]["name"]\<close> raises when the list has no name.\<close>

definition card_list_name :: "(string, list_data) dict \<Rightarrow> trello_card \<Rightarrow> exn + string" where
  "card_list_name list_map c =
     (case c_idList c of
        None \<Rightarrow> Inr ''Unknown''
      | Some list_id \<Rightarrow>
          if list_id \<noteq> [] then
            (case dict_get list_map list_id of
               None \<Rightarrow> Inr ''Unknown''
             | Some l \<Rightarrow>
                 (case l_name l of None \<Rightarrow> Inl (KeyError ''name'') | Some n \<Rightarrow> Inr n))
          else Inr ''Unknown'')"

fun card_members :: "(string, member) dict \<Rightarrow> string list \<Rightarrow> member_ref list" where
  "card_members member_map [] = []"
| "card_members member_map (member_id # ids) =
     (case dict_get member_map member_id of
        None \<Rightarrow> card_members member_map ids
      | Some mb \<Rightarrow> \<lparr>mr_id = member_id, mr_name = display_name mb\<rparr> # card_members member_map ids)"

text \<open>The comment built from one action; the keys are read in the order of the source.\<close>

definition comment_of_action :: "action \<Rightarrow> exn + comment" where
  "comment_of_action a =
     (case ac_id a of
        None \<Rightarrow> Inl (KeyError ''id'')
      | Some i \<Rightarrow>
          (case ac_data a of
             None \<Rightarrow> Inl (KeyError ''data'')
           | Some d \<Rightarrow>
               (case ad_text d of
                  None \<Rightarrow> Inl (KeyError ''text'')
                | Some t \<Rightarrow>
                    (case ac_date a of
                       None \<Rightarrow> Inl (KeyError ''date'')
                     | Some dt \<Rightarrow>
                         Inr \<lparr>cm_id = Some i, cm_text = Some t, cm_date = Some dt,
                              cm_memberCreator = Some (get_str (ac_memberCreator a) [])\<rparr>))))"

fun extract_comments :: "action list \<Rightarrow> exn + comment list" where
  "extract_comments [] = Inr []"
| "extract_comments (a # as) =
     (case ac_type a of
        None \<Rightarrow> Inl (KeyError ''type'')
      | Some ty \<Rightarrow>
          if ty = ''commentCard'' then
            (case comment_of_action a of
               Inl e \<Rightarrow> Inl e
             | Inr cm \<Rightarrow> (case extract_comments as of Inl e \<Rightarrow> Inl e | Inr cms \<Rightarrow> Inr (cm # cms)))
          else extract_comments as)"

text \<open>
  Blocker detection of the normalizer: the first red label decides; only when there is
  none, the first comment that mentions a blocker does.  The result is the pair
  \<open>(is_blocker, blocker_reason)\<close>.
\<close>

definition detect_blocker :: "label list \<Rightarrow> comment list \<Rightarrow> exn + bool \<times> string option" where
  "detect_blocker labels comments =
     (case find is_red labels of
        Some lb \<Rightarrow> Inr (True, Some (''Red label: '' @ get_str (lb_name lb) ''Blocker''))
      | None \<Rightarrow>
          (case find mentions_blocker comments of
             None \<Rightarrow> Inr (False, None)
           | Some cm \<Rightarrow>
               (case cm_text cm of
                  None \<Rightarrow> Inl (KeyError ''text'')
                | Some t \<Rightarrow>
                    Inr (True, Some (''Blocker mentioned in comment: '' @ take 50 t @ ''...'')))))"

definition process_card ::
  "trello_card \<Rightarrow> (string, list_data) dict \<Rightarrow> (string, member) dict \<Rightarrow> exn + trello_card" where
  "process_card c list_map member_map =
     (case card_list_name list_map c of
        Inl e \<Rightarrow> Inl e
      | Inr list_name \<Rightarrow>
          (let members = card_members member_map (get_list (c_idMembers c)) in
           case extract_comments (get_list (c_actions c)) of
             Inl e \<Rightarrow> Inl e
           | Inr comments \<Rightarrow>
               (case detect_blocker (get_list (c_labels c)) comments of
                  Inl e \<Rightarrow> Inl e
                | Inr (is_blocker, blocker_reason) \<Rightarrow>
                    Inr \<lparr>c_id = c_id c, c_name = c_name c, c_desc = c_desc c, c_url = c_url c,
                         c_idList = c_idList c, c_listName = Some list_name, c_due = c_due c,
                         c_dueComplete = Some (get_bool (c_dueComplete c)),
                         c_dateLastActivity = c_dateLastActivity c,
                         c_labels = Some (get_list (c_labels c)), c_idMembers = None,
                         c_members = Some members, c_actions = None, c_comments = Some comments,
                         c_attachments = Some (get_list (c_attachments c)),
                         c_isComplete = Some (list_name = ''Done''),
                         c_isBlocker = Some is_blocker, c_blockerReason = blocker_reason\<rparr>)))"

fun list_data_map :: "list_data list \<Rightarrow> (string, list_data) dict \<Rightarrow> exn + (string, list_data) dict" where
  "list_data_map [] m = Inr m"
| "list_data_map (l # ls) m =
     (case l_id l of
        None \<Rightarrow> Inl (KeyError ''id'')
      | Some i \<Rightarrow> list_data_map ls (dict_set m i l))"

fun member_data_map :: "member list \<Rightarrow> (string, member) dict \<Rightarrow> exn + (string, member) dict" where
  "member_data_map [] m = Inr m"
| "member_data_map (mb # mbs) m =
     (case mb_id mb of
        None \<Rightarrow> Inl (KeyError ''id'')
      | Some i \<Rightarrow> member_data_map mbs (dict_set m i mb))"

fun process_cards ::
  "(string, list_data) dict \<Rightarrow> (string, member) dict \<Rightarrow> trello_card list \<Rightarrow> exn + trello_card list" where
  "process_cards list_map member_map [] = Inr []"
| "process_cards list_map member_map (c # cs) =
     (case process_card c list_map member_map of
        Inl e \<Rightarrow> Inl e
      | Inr pc \<Rightarrow>
          (case process_cards list_map member_map cs of
             Inl e \<Rightarrow> Inl e
           | Inr pcs \<Rightarrow> Inr (pc # pcs)))"

fun empty_groups ::
  "list_data list \<Rightarrow> (string, trello_card list) dict \<Rightarrow> exn + (string, trello_card list) dict" where
  "empty_groups [] d = Inr d"
| "empty_groups (l # ls) d =
     (case l_name l of
        None \<Rightarrow> Inl (KeyError ''name'')
      | Some n \<Rightarrow> empty_groups ls (dict_set d n []))"

definition group_card ::
  "trello_card \<Rightarrow> (string, trello_card list) dict \<Rightarrow> (string, trello_card list) dict" where
  "group_card c cards_by_list =
     (let list_name = get_str (c_listName c) ''Unknown'' in
      case dict_get cards_by_list list_name of
        None \<Rightarrow> cards_by_list
      | Some grp \<Rightarrow> dict_set cards_by_list list_name (grp @ [c]))"

definition list_pos :: "list_data \<Rightarrow> rat" where
  "list_pos l = (case l_pos l of None \<Rightarrow> 0 | Some p \<Rightarrow> p)"

text \<open>The body of the \<open>try\<close> block of \<open>process_trello_data\<close>.\<close>

definition process_board :: "snapshot \<Rightarrow> exn + snapshot" where
  "process_board board_data =
     (let cards = get_list (s_cards board_data);
          lsts = get_list (s_lists board_data);
          members = get_list (s_members board_data) in
      case list_data_map lsts [] of
        Inl e \<Rightarrow> Inl e
      | Inr list_map \<Rightarrow>
          (case member_data_map members [] of
             Inl e \<Rightarrow> Inl e
           | Inr member_map \<Rightarrow>
               (case process_cards list_map member_map cards of
                  Inl e \<Rightarrow> Inl e
                | Inr processed_cards \<Rightarrow>
                    (case empty_groups lsts [] of
                       Inl e \<Rightarrow> Inl e
                     | Inr groups \<Rightarrow>
                         Inr \<lparr>s_error = None, s_board_id = s_board_id board_data,
                              s_cards = Some processed_cards,
                              s_lists = Some (sort_key list_pos lsts),
                              s_members = Some members,
                              s_cards_by_list = Some (fold group_card processed_cards groups),
                              s_timestamp = s_timestamp board_data, s_status = None\<rparr>))))"

definition process_trello_data :: "snapshot \<Rightarrow> snapshot" where
  "process_trello_data board_data =
     (if snapshot_is_empty board_data \<or> s_error board_data \<noteq> None
      then error_snapshot (get_str (s_error board_data) ''Unknown error retrieving board data'')
      else
        (case process_board board_data of
           Inl e \<Rightarrow> error_snapshot (''Error processing board data: '' @ str_exn e)
         | Inr result \<Rightarrow> result))"

section \<open>Burn-down, velocity, risks and recommendations: \<open>AnalysisAgent\<close>\<close>

datatype num_or_str = Num rat | Str string

record ideal_point =
  ip_day :: nat
  ip_ideal :: rat

record actual_point =
  ap_day :: nat
  ap_actual :: rat

record burn_down =
  bd_total_points :: nat
  bd_completed_points :: nat
  bd_remaining_points :: int
  bd_ideal_burn_down :: "ideal_point list"
  bd_actual_burn_down :: "actual_point list"
  bd_projected_completion :: num_or_str

text \<open>\<open>sum(1 for card in cards if card.get("isComplete", False))\<close>.\<close>

definition completed_points_of :: "trello_card list \<Rightarrow> nat" where
  "completed_points_of cards = length (filter (\<lambda>c. get_bool (c_isComplete c)) cards)"

definition calculate_burn_down :: "trello_card list \<Rightarrow> list_data list \<Rightarrow> burn_down" where
  "calculate_burn_down cards lsts =
     (let total_points = length cards;
          completed_points = completed_points_of cards;
          remaining_points = int total_points - int completed_points;
          ideal_burn_down =
            map (\<lambda>day. \<lparr>ip_day = day,
                          ip_ideal = of_nat total_points - (of_nat total_points * of_nat day / 10)\<rparr>)
              [0..<11];
          completion_rate =
            (if total_points > 0 then of_nat completed_points / of_nat total_points else (0::rat));
          estimated_day = (5::nat);
          actual_burn_down =
            map (\<lambda>day. \<lparr>ap_day = day,
                          ap_actual = of_nat total_points -
                            (of_nat completed_points * of_nat day / of_nat estimated_day)\<rparr>)
              [0..<estimated_day + 1]
      in \<lparr>bd_total_points = total_points, bd_completed_points = completed_points,
          bd_remaining_points = remaining_points, bd_ideal_burn_down = ideal_burn_down,
          bd_actual_burn_down = actual_burn_down,
          bd_projected_completion =
            (if completion_rate > 0 then Num (of_int remaining_points / completion_rate)
             else Str ''Cannot estimate'')\<rparr>)"

record current_sprint =
  cs_total_points :: nat
  cs_completed_points :: nat
  cs_completion_percentage :: rat

record historical_sprint =
  hs_sprint :: string
  hs_completed_points :: int

record velocity =
  v_current_sprint :: current_sprint
  v_historical :: "historical_sprint list"

definition calculate_velocity :: "trello_card list \<Rightarrow> velocity" where
  "calculate_velocity cards =
     (let total_story_points = length cards;
          completed_story_points = completed_points_of cards
      in \<lparr>v_current_sprint =
            \<lparr>cs_total_points = total_story_points, cs_completed_points = completed_story_points,
             cs_completion_percentage =
               (if total_story_points > 0
                then of_nat completed_story_points / of_nat total_story_points * 100 else 0)\<rparr>,
          v_historical =
            [\<lparr>hs_sprint = ''Sprint -1'', hs_completed_points = int completed_story_points - 2\<rparr>,
             \<lparr>hs_sprint = ''Sprint -2'', hs_completed_points = int completed_story_points - 5\<rparr>,
             \<lparr>hs_sprint = ''Sprint -3'', hs_completed_points = int completed_story_points - 3\<rparr>]\<rparr>)"

text \<open>
  The description of a risk is a formatted string; it is kept as the template together
  with the number that the source formats into it.
\<close>

datatype risk_description =
    Low_completion_rate rat
  | Blockers_identified nat
  | Approaching_tasks nat
  | Overdue_tasks nat
  | High_workloads nat
  | Bottlenecks_identified nat

record risk =
  r_category :: string
  r_severity :: string
  r_description :: risk_description
  r_impact :: string

definition identify_risks ::
  "trello_card list \<Rightarrow> sprint_metrics \<Rightarrow> team_performance \<Rightarrow> process_bottlenecks \<Rightarrow> risk list" where
  "identify_risks cards sprint_metrics team_performance process_bottlenecks =
     (let completion_rate = sm_completion_rate sprint_metrics;
          blockers = sm_blockers sprint_metrics;
          approaching_deadlines = sm_approaching_deadlines sprint_metrics;
          overdue_cards = sm_overdue_cards sprint_metrics;
          members_with_high_workload = tp_members_with_high_workload team_performance;
          bottlenecks = pb_bottlenecks process_bottlenecks
      in
        (if completion_rate < 70
         then [\<lparr>r_category = ''completion_rate'',
                r_severity = (if completion_rate < 50 then ''high'' else ''medium''),
                r_description = Low_completion_rate completion_rate,
                r_impact = ''Sprint goals may not be met by the end of the sprint''\<rparr>]
         else []) @
        (if blockers \<noteq> []
         then [\<lparr>r_category = ''blockers'',
                r_severity = (if length blockers > 2 then ''high'' else ''medium''),
                r_description = Blockers_identified (length blockers),
                r_impact = ''Blocking issues are preventing team progress''\<rparr>]
         else []) @
        (if approaching_deadlines \<noteq> []
         then [\<lparr>r_category = ''approaching_deadlines'', r_severity = ''medium'',
                r_description = Approaching_tasks (length approaching_deadlines),
                r_impact = ''Tasks may not be completed by their due dates''\<rparr>]
         else []) @
        (if overdue_cards \<noteq> []
         then [\<lparr>r_category = ''overdue'',
                r_severity = (if length overdue_cards > 3 then ''high'' else ''medium''),
                r_description = Overdue_tasks (length overdue_cards),
                r_impact = ''Tasks have already missed their deadlines''\<rparr>]
         else []) @
        (if members_with_high_workload \<noteq> []
         then [\<lparr>r_category = ''workload_imbalance'', r_severity = ''medium'',
                r_description = High_workloads (length members_with_high_workload),
                r_impact = ''Uneven workload distribution may lead to burnout and delays''\<rparr>]
         else []) @
        (if bottlenecks \<noteq> []
         then [\<lparr>r_category = ''process_bottlenecks'',
                r_severity =
                  (if list_ex (\<lambda>b. bn_ratio_to_avg b > 2) bottlenecks then ''high'' else ''medium''),
                r_description = Bottlenecks_identified (length bottlenecks),
                r_impact = ''Tasks are piling up in specific stages of the process''\<rparr>]
         else []))"

record recommendation =
  rc_category :: string
  rc_priority :: string
  rc_description :: string
  rc_action_items :: "string list"

definition rec_completion_rate :: recommendation where
  "rec_completion_rate =
     \<lparr>rc_category = ''completion_rate'', rc_priority = ''high'',
      rc_description = ''Review sprint scope and consider reducing the number of tasks'',
      rc_action_items =
        [''Conduct a mid-sprint scope review'',
         ''Identify and remove non-essential tasks'',
         ''Focus team efforts on highest priority items'']\<rparr>"

definition rec_blockers :: recommendation where
  "rec_blockers =
     \<lparr>rc_category = ''blockers'', rc_priority = ''high'',
      rc_description = ''Address blocking issues immediately'',
      rc_action_items =
        [''Schedule a blocker resolution session'',
         ''Escalate blockers to relevant stakeholders if needed'',
         ''Assign owners to each blocker with clear resolution timelines'']\<rparr>"

definition rec_deadlines :: recommendation where
  "rec_deadlines =
     \<lparr>rc_category = ''deadlines'', rc_priority = ''high'',
      rc_description = ''Review and adjust task deadlines'',
      rc_action_items =
        [''Re-evaluate overdue and approaching deadline tasks'',
         ''Adjust timelines or reassign resources as needed'',
         ''Communicate changes to stakeholders'']\<rparr>"

definition rec_workload :: recommendation where
  "rec_workload =
     \<lparr>rc_category = ''workload'', rc_priority = ''medium'',
      rc_description = ''Balance team workload'',
      rc_action_items =
        [''Redistribute tasks from overloaded team members'',
         ''Pair team members on complex tasks'',
         ''Consider bringing in additional resources if available'']\<rparr>"

definition rec_process :: recommendation where
  "rec_process =
     \<lparr>rc_category = ''process'', rc_priority = ''medium'',
      rc_description = ''Address process bottlenecks'',
      rc_action_items =
        [''Focus team efforts on clearing bottlenecked stages'',
         ''Review process flow and identify improvement opportunities'',
         ''Consider temporary process adjustments for the current sprint'']\<rparr>"

definition rec_general :: recommendation where
  "rec_general =
     \<lparr>rc_category = ''general'', rc_priority = ''low'',
      rc_description = ''Continue monitoring sprint progress'',
      rc_action_items =
        [''Maintain daily stand-ups and communications'',
         ''Keep the board updated with the latest status'',
         ''Ensure team members are aware of their responsibilities'']\<rparr>"

definition generate_recommendations ::
  "risk list \<Rightarrow> sprint_metrics \<Rightarrow> team_performance \<Rightarrow> process_bottlenecks \<Rightarrow> recommendation list" where
  "generate_recommendations risks sprint_metrics team_performance process_bottlenecks =
     (let risk_categories = set (map r_category risks);
          recommendations =
            (if ''completion_rate'' \<in> risk_categories then [rec_completion_rate] else []) @
            (if ''blockers'' \<in> risk_categories then [rec_blockers] else []) @
            (if ''approaching_deadlines'' \<in> risk_categories \<or> ''overdue'' \<in> risk_categories
             then [rec_deadlines] else []) @
            (if ''workload_imbalance'' \<in> risk_categories then [rec_workload] else []) @
            (if ''process_bottlenecks'' \<in> risk_categories then [rec_process] else [])
      in if recommendations = [] then [rec_general] else recommendations)"

record analysis_results =
  ar_timestamp :: int
  ar_sprint_metrics :: sprint_metrics
  ar_team_performance :: team_performance
  ar_process_bottlenecks :: process_bottlenecks
  ar_burn_down :: burn_down
  ar_velocity :: velocity
  ar_risks :: "risk list"
  ar_recommendations :: "recommendation list"
  ar_sprint_end_date :: "string option"
  ar_days_remaining :: "int option"

text \<open>
  The result of an analysis run is either the dictionary \<open>{"error": msg}\<close> or the
  dictionary of results.
\<close>

datatype analysis_output = Analysis_error string | Analysis analysis_results

text \<open>
  \<open>clock k\<close> is the \<open>k\<close>-th reading of \<open>datetime.now()\<close> during the run: the first is
  taken by \<open>calculate_sprint_metrics\<close>, the following ones by
  \<open>analyze_team_performance\<close>, the last one is the timestamp of the result (kept as the
  reading, not as its ISO text).  On the modelled inputs the calls inside the \<open>try\<close> block
  do not raise, so its \<open>except\<close> branch has no case here.
\<close>

definition analyze_sprint_data :: "iso_parser \<Rightarrow> (nat \<Rightarrow> int) \<Rightarrow> snapshot \<Rightarrow> analysis_output" where
  "analyze_sprint_data parse clock processed_data =
     (if snapshot_is_empty processed_data \<or> s_error processed_data \<noteq> None
      then Analysis_error (get_str (s_error processed_data) ''Unknown error in processed data'')
      else
        (let cards = get_list (s_cards processed_data);
             lsts = get_list (s_lists processed_data);
             members = get_list (s_members processed_data);
             sprint_metrics = calculate_sprint_metrics parse (clock 0) cards lsts;
             team = analyze_team_performance_clocked parse (\<lambda>k. clock (Suc k)) cards members;
             team_performance = fst team;
             process_bottlenecks = identify_process_bottlenecks cards lsts;
             burn_down_data = calculate_burn_down cards lsts;
             velocity_data = calculate_velocity cards;
             risks = identify_risks cards sprint_metrics team_performance process_bottlenecks;
             recommendations =
               generate_recommendations risks sprint_metrics team_performance process_bottlenecks
         in Analysis
              \<lparr>ar_timestamp = clock (Suc (snd team)), ar_sprint_metrics = sprint_metrics,
               ar_team_performance = team_performance,
               ar_process_bottlenecks = process_bottlenecks, ar_burn_down = burn_down_data,
               ar_velocity = velocity_data, ar_risks = risks,
               ar_recommendations = recommendations, ar_sprint_end_date = None,
               ar_days_remaining = None\<rparr>))"

section \<open>Notions of the specification\<close>

text \<open>
  Definitions that follow the words of the specification; the theorems compare them with
  the functions translated from the source.
\<close>

text \<open>
  The categories of the risk table, and the collapsing rule of the recommendations:
  \<open>approaching_deadlines\<close> and \<open>overdue\<close> both map to the one category \<open>deadlines\<close>.
\<close>

definition collapsed_category :: "string \<Rightarrow> string" where
  "collapsed_category c =
     (if c = ''approaching_deadlines'' \<or> c = ''overdue'' then ''deadlines'' else c)"

definition known_categories :: "string set" where
  "known_categories =
     {''completion_rate'', ''blockers'', ''approaching_deadlines'', ''overdue'',
      ''workload_imbalance'', ''process_bottlenecks''}"

text \<open>
  The result of an analysis run with its timestamp erased.
\<close>

fun without_timestamp :: "analysis_output \<Rightarrow> analysis_output" where
  "without_timestamp (Analysis_error msg) = Analysis_error msg"
| "without_timestamp (Analysis r) = Analysis (r\<lparr>ar_timestamp := 0\<rparr>)"

text \<open>
  The lists of a board are well formed when each has an identifier and a name.  A card is
  in the list that its list reference resolves to (when an identifier is repeated, the
  last list that carries it; an empty reference resolves to no list), and
  \<open>cards_in_list\<close> counts the cards in the list of a given name.
\<close>

definition well_formed_lists :: "list_data list \<Rightarrow> bool" where
  "well_formed_lists lsts = list_all (\<lambda>l. l_id l \<noteq> None \<and> l_name l \<noteq> None) lsts"

definition list_name_of :: "list_data list \<Rightarrow> string \<Rightarrow> string option" where
  "list_name_of lsts list_id =
     (case find (\<lambda>l. l_id l = Some list_id) (rev lsts) of
        None \<Rightarrow> None
      | Some l \<Rightarrow> l_name l)"

definition list_of_card :: "list_data list \<Rightarrow> trello_card \<Rightarrow> string option" where
  "list_of_card lsts c =
     (case c_idList c of
        None \<Rightarrow> None
      | Some list_id \<Rightarrow> if list_id = [] then None else list_name_of lsts list_id)"

definition cards_in_list :: "list_data list \<Rightarrow> trello_card list \<Rightarrow> string \<Rightarrow> nat" where
  "cards_in_list lsts cards n = length (filter (\<lambda>c. list_of_card lsts c = Some n) cards)"

text \<open>
  A card with no labels, no comments and no due date; the risk that a completion rate of
  30 raises; the recommendations of an analysis result.
\<close>

definition plain_card :: "trello_card \<Rightarrow> bool" where
  "plain_card c =
     (get_list (c_labels c) = [] \<and> get_list (c_comments c) = [] \<and> \<not> truthy_str (c_due c))"

definition completion_risk_30 :: risk where
  "completion_risk_30 =
     \<lparr>r_category = ''completion_rate'', r_severity = ''high'',
      r_description = Low_completion_rate 30,
      r_impact = ''Sprint goals may not be met by the end of the sprint''\<rparr>"

fun recommendations_of :: "analysis_output \<Rightarrow> recommendation list" where
  "recommendations_of (Analysis_error msg) = []"
| "recommendations_of (Analysis r) = ar_recommendations r"

text \<open>
  The names of the lists of a board, the average number of cards per list (the cards in
  the lists divided by the number of distinct list names, 0 when there is no list), and
  the entry that \<open>list_map\<close> holds for a list.
\<close>

definition names_of :: "list_data list \<Rightarrow> string list" where
  "names_of lsts = concat (map (\<lambda>l. case l_name l of None \<Rightarrow> [] | Some n \<Rightarrow> [n]) lsts)"

definition average_per_list :: "list_data list \<Rightarrow> trello_card list \<Rightarrow> rat" where
  "average_per_list lsts cards =
     (if set (names_of lsts) = {} then 0
      else of_nat (\<Sum>n\<in>set (names_of lsts). cards_in_list lsts cards n) /
           of_nat (card (set (names_of lsts))))"

definition info_entry :: "list_data \<Rightarrow> string \<times> list_info" where
  "info_entry l = (get_str (l_id l) [], \<lparr>li_name = get_str (l_name l) [], li_pos = list_pos l\<rparr>)"

text \<open>
  The members of a board are well formed when each has an identifier.  A member
  identifier resolves to the display name of the member that carries it (the last one
  when it is repeated) and to \<open>Unknown\<close> when there is none.  \<open>assigned_names\<close> lists one
  name per assignment of a card to a member; a member's total is the number of
  assignments to its name, and the average is the number of assignments divided by the
  number of referenced names (0 when there is no assignment).  \<open>totals_of\<close> reads the
  totals off the \<open>cards_by_member\<close> dictionary.
\<close>

definition well_formed_members :: "member list \<Rightarrow> bool" where
  "well_formed_members mbs = list_all (\<lambda>m. mb_id m \<noteq> None) mbs"

definition member_name_of :: "member list \<Rightarrow> string \<Rightarrow> string" where
  "member_name_of mbs member_id =
     (case find (\<lambda>m. mb_id m = Some member_id) (rev mbs) of
        None \<Rightarrow> ''Unknown''
      | Some m \<Rightarrow> display_name m)"

definition assigned_names :: "member list \<Rightarrow> trello_card list \<Rightarrow> string list" where
  "assigned_names mbs cards =
     map (member_name_of mbs) (concat (map (\<lambda>c. get_list (c_idMembers c)) cards))"

definition member_total :: "member list \<Rightarrow> trello_card list \<Rightarrow> string \<Rightarrow> nat" where
  "member_total mbs cards n = count_list (assigned_names mbs cards) n"

definition average_assignments :: "member list \<Rightarrow> trello_card list \<Rightarrow> rat" where
  "average_assignments mbs cards =
     (if assigned_names mbs cards = [] then 0
      else of_nat (length (assigned_names mbs cards)) /
           of_nat (card (set (assigned_names mbs cards))))"

definition totals_of :: "(string, member_stats) dict \<Rightarrow> (string, nat) dict" where
  "totals_of d = map (\<lambda>e. (fst e, ms_total (snd e))) d"

section \<open>Example boards\<close>

text \<open>Concrete cards, lists and snapshots on which the properties below are exercised.\<close>

definition blank_card :: trello_card where
  "blank_card =
     \<lparr>c_id = None, c_name = None, c_desc = None, c_url = None, c_idList = None,
      c_listName = None, c_due = None, c_dueComplete = None, c_dateLastActivity = None,
      c_labels = None, c_idMembers = None, c_members = None, c_actions = None,
      c_comments = None, c_attachments = None, c_isComplete = None, c_isBlocker = None,
      c_blockerReason = None\<rparr>"

definition comment_action :: "string \<Rightarrow> string \<Rightarrow> action" where
  "comment_action i t =
     \<lparr>ac_type = Some ''commentCard'', ac_id = Some i, ac_data = Some \<lparr>ad_text = Some t\<rparr>,
      ac_date = Some ''2024-03-01T10:00:00.000Z'', ac_memberCreator = None\<rparr>"

definition red_card :: trello_card where
  "red_card = blank_card
     \<lparr>c_labels := Some [\<lparr>lb_color = Some ''green'', lb_name = Some ''Feature''\<rparr>,
                        \<lparr>lb_color = Some ''red'', lb_name = Some ''Urgent''\<rparr>],
      c_actions := Some [comment_action ''a1'' ''this is a blocker too'']\<rparr>"

definition vendor_comment :: string where
  "vendor_comment = ''BLOCKER: waiting on the vendor to deliver the API keys for staging''"

definition commented_card :: trello_card where
  "commented_card = blank_card
     \<lparr>c_labels := Some [\<lparr>lb_color = Some ''green'', lb_name = Some ''Feature''\<rparr>],
      c_actions := Some [comment_action ''a1'' ''looks fine'',
        comment_action ''a2'' vendor_comment]\<rparr>"

definition example_risks :: "risk list" where
  "example_risks =
     [\<lparr>r_category = ''completion_rate'', r_severity = ''high'',
       r_description = Low_completion_rate 30,
       r_impact = ''Sprint goals may not be met by the end of the sprint''\<rparr>,
      \<lparr>r_category = ''approaching_deadlines'', r_severity = ''medium'',
       r_description = Approaching_tasks 1,
       r_impact = ''Tasks may not be completed by their due dates''\<rparr>,
      \<lparr>r_category = ''overdue'', r_severity = ''medium'',
       r_description = Overdue_tasks 2,
       r_impact = ''Tasks have already missed their deadlines''\<rparr>]"

definition ada :: member where
  "ada = \<lparr>mb_id = Some ''m1'', mb_fullName = Some ''Ada'', mb_username = Some ''ada''\<rparr>"

definition todo_list :: list_data where
  "todo_list = \<lparr>l_id = Some ''l1'', l_name = Some ''To Do'', l_pos = Some 1, l_closed = Some False\<rparr>"

definition assigned_raw_card :: trello_card where
  "assigned_raw_card =
     blank_card\<lparr>c_id := Some ''c1'', c_idList := Some ''l1'', c_idMembers := Some [''m1'']\<rparr>"

definition day_parser :: iso_parser where
  "day_parser s = (if s = ''2024-03-05T00:00:00'' then Some (Naive 5) else None)"

definition frozen_clock :: "int \<Rightarrow> nat \<Rightarrow> int" where
  "frozen_clock t k = t"

definition small_board :: snapshot where
  "small_board =
     \<lparr>s_error = None, s_board_id = Some ''b1'', s_cards = Some [assigned_raw_card],
      s_lists = Some [todo_list], s_members = Some [ada], s_cards_by_list = None,
      s_timestamp = None, s_status = Some ''success''\<rparr>"

definition due_card :: trello_card where
  "due_card = blank_card\<lparr>c_id := Some ''c1'', c_due := Some ''2024-03-05T00:00:00''\<rparr>"

definition empty_board :: snapshot where
  "empty_board =
     \<lparr>s_error = None, s_board_id = Some ''b1'', s_cards = Some [], s_lists = Some [],
      s_members = Some [], s_cards_by_list = None, s_timestamp = None,
      s_status = Some ''success''\<rparr>"

definition no_parser :: iso_parser where
  "no_parser s = None"

definition card_in :: "string \<Rightarrow> string \<Rightarrow> trello_card" where
  "card_in i l = blank_card\<lparr>c_id := Some i, c_idList := Some l\<rparr>"

definition named_list :: "string \<Rightarrow> string \<Rightarrow> rat \<Rightarrow> list_data" where
  "named_list i n p = \<lparr>l_id = Some i, l_name = Some n, l_pos = Some p, l_closed = Some False\<rparr>"

definition board_of :: "trello_card list \<Rightarrow> list_data list \<Rightarrow> snapshot" where
  "board_of cards lsts =
     \<lparr>s_error = None, s_board_id = Some ''b1'', s_cards = Some cards, s_lists = Some lsts,
      s_members = Some [], s_cards_by_list = None, s_timestamp = None,
      s_status = Some ''success''\<rparr>"

definition ten_cards :: "trello_card list" where
  "ten_cards =
     [card_in ''c1'' ''done'', card_in ''c2'' ''done'', card_in ''c3'' ''done'',
      card_in ''c4'' ''todo'', card_in ''c5'' ''todo'', card_in ''c6'' ''todo'',
      card_in ''c7'' ''todo'', card_in ''c8'' ''todo'', card_in ''c9'' ''todo'',
      card_in ''c10'' ''todo'']"

definition two_lists :: "list_data list" where
  "two_lists = [named_list ''todo'' ''To Do'' 1, named_list ''done'' ''Done'' 2]"

definition three_lists :: "list_data list" where
  "three_lists =
     [named_list ''todo'' ''To Do'' 1, named_list ''doing'' ''Doing'' 2,
      named_list ''done'' ''Done'' 3]"

definition four_lists :: "list_data list" where
  "four_lists =
     [named_list ''l1'' ''Backlog'' 1, named_list ''l2'' ''In Progress'' 2,
      named_list ''l3'' ''Review'' 3, named_list ''l4'' ''Done'' 4]"

definition twenty_cards :: "trello_card list" where
  "twenty_cards =
     [card_in ''a01'' ''l1'', card_in ''b01'' ''l2'', card_in ''c01'' ''l3'',
      card_in ''d01'' ''l4'',
      card_in ''d02'' ''l4'',
      card_in ''d03'' ''l4'',
      card_in ''d04'' ''l4'',
      card_in ''d05'' ''l4'',
      card_in ''d06'' ''l4'',
      card_in ''d07'' ''l4'',
      card_in ''d08'' ''l4'',
      card_in ''d09'' ''l4'',
      card_in ''d10'' ''l4'',
      card_in ''d11'' ''l4'',
      card_in ''d12'' ''l4'',
      card_in ''d13'' ''l4'',
      card_in ''d14'' ''l4'',
      card_in ''d15'' ''l4'',
      card_in ''d16'' ''l4'',
      card_in ''d17'' ''l4'']"

definition bob :: member where
  "bob = \<lparr>mb_id = Some ''m2'', mb_fullName = Some ''Bob'', mb_username = Some ''bob''\<rparr>"

definition cy :: member where
  "cy = \<lparr>mb_id = Some ''m3'', mb_fullName = None, mb_username = Some ''cy''\<rparr>"

definition team :: "member list" where
  "team = [ada, bob, cy]"

definition card_of :: "string \<Rightarrow> string list \<Rightarrow> trello_card" where
  "card_of i member_ids = blank_card\<lparr>c_id := Some i, c_idMembers := Some member_ids\<rparr>"

definition boundary_cards :: "trello_card list" where
  "boundary_cards =
     [card_of ''c1'' [''m1'', ''m2''], card_of ''c2'' [''m1'', ''m3''],
      card_of ''c3'' [''m1'', ''m3'']]"

definition loaded_cards :: "trello_card list" where
  "loaded_cards =
     [card_of ''c1'' [''m1'', ''m2''], card_of ''c2'' [''m1'', ''m3''],
      card_of ''c3'' [''m1''], card_of ''c4'' [''m1'']]"

section \<open>Verified properties\<close>

subsection \<open>Empty boards\<close>

text \<open>
  Claim C1.  When the card list is empty, \<open>calculate_sprint_metrics\<close> returns a completion
  rate of 0, whatever the lists are (also when a malformed list makes it return its error
  dictionary), and \<open>_calculate_burn_down\<close> reports the projected completion as the string
  \<open>Cannot estimate\<close>.
\<close>

theorem empty_board_metrics:
  "sm_completion_rate (calculate_sprint_metrics parse now [] lsts) = 0 \<and>
   bd_projected_completion (calculate_burn_down [] lsts) = Str ''Cannot estimate''"
  by (simp add: calculate_sprint_metrics_def metrics_failed_def calculate_burn_down_def
      completed_points_of_def Let_def split: sum.splits)

subsection \<open>Propagation of an upstream error\<close>

text \<open>
  Claim C4.  When the input snapshot has the key \<open>error\<close>, \<open>analyze_sprint_data\<close> returns
  the dictionary that holds this message under \<open>error\<close> and nothing else, and
  \<open>process_trello_data\<close> does the same: neither result carries metrics, risks or
  recommendations.
\<close>

theorem upstream_error_propagates:
  "s_error d = Some msg \<Longrightarrow>
   analyze_sprint_data parse clock d = Analysis_error msg \<and>
   process_trello_data d = error_snapshot msg"
  by (simp add: analyze_sprint_data_def process_trello_data_def get_str_def)

theorem upstream_error_propagates_witness:
  "s_error (error_snapshot ''Missing API credentials or board ID'')
     = Some ''Missing API credentials or board ID'' \<and>
   analyze_sprint_data (\<lambda>s. None) (\<lambda>k. 0) (error_snapshot ''Missing API credentials or board ID'')
     = Analysis_error ''Missing API credentials or board ID'' \<and>
   process_trello_data (error_snapshot ''Missing API credentials or board ID'')
     = error_snapshot ''Missing API credentials or board ID''"
proof -
  have h: "s_error (error_snapshot ''Missing API credentials or board ID'')
             = Some ''Missing API credentials or board ID''"
    by (simp add: error_snapshot_def)
  show ?thesis
    using h upstream_error_propagates [OF h, of "\<lambda>s. None" "\<lambda>k. 0"] by simp
qed

subsection \<open>Blocker detection of the normalizer\<close>

text \<open>The substring test is the usual one, and \<open>find\<close> returns the first match.\<close>

lemma find_first:
  "xs = pre @ x # post \<Longrightarrow> \<forall>y\<in>set pre. \<not> P y \<Longrightarrow> P x \<Longrightarrow> find P xs = Some x"
  by (induction pre arbitrary: xs) auto

lemma starts_with_iff: "starts_with p s \<longleftrightarrow> (\<exists>q. s = p @ q)"
  by (induction p s rule: starts_with.induct) auto

lemma str_contains_iff: "str_contains sub s \<longleftrightarrow> (\<exists>p q. s = p @ sub @ q)"
proof (induction s)
  case Nil
  then show ?case by auto
next
  case (Cons x xs)
  show ?case
  proof
    assume "str_contains sub (x # xs)"
    then consider "starts_with sub (x # xs)" | "str_contains sub xs" by auto
    then show "\<exists>p q. x # xs = p @ sub @ q"
    proof cases
      case 1
      then obtain q where "x # xs = sub @ q" by (auto simp: starts_with_iff)
      then have "x # xs = [] @ sub @ q" by simp
      then show ?thesis by blast
    next
      case 2
      then obtain p q where "xs = p @ sub @ q" using Cons.IH by blast
      then have "x # xs = (x # p) @ sub @ q" by simp
      then show ?thesis by blast
    qed
  next
    assume "\<exists>p q. x # xs = p @ sub @ q"
    then obtain p q where pq: "x # xs = p @ sub @ q" by blast
    show "str_contains sub (x # xs)"
    proof (cases p)
      case Nil
      then have "starts_with sub (x # xs)" using pq by (auto simp: starts_with_iff)
      then show ?thesis by simp
    next
      case (Cons a p')
      then have "xs = p' @ sub @ q" using pq by simp
      then have "str_contains sub xs" using Cons.IH by blast
      then show ?thesis by simp
    qed
  qed
qed

lemma extract_comments_text:
  "extract_comments as = Inr cms \<Longrightarrow> cm \<in> set cms \<Longrightarrow> cm_text cm \<noteq> None"
  by (induction as arbitrary: cms)
     (auto simp: comment_of_action_def split: option.splits if_splits sum.splits)

lemma detect_blocker_red:
  "labels = pre @ lb # post \<Longrightarrow> \<forall>y\<in>set pre. lb_color y \<noteq> Some ''red'' \<Longrightarrow>
   lb_color lb = Some ''red'' \<Longrightarrow>
   detect_blocker labels comments =
     Inr (True, Some (''Red label: '' @ (case lb_name lb of None \<Rightarrow> ''Blocker'' | Some n \<Rightarrow> n)))"
  using find_first [of labels pre lb post is_red]
  by (simp add: detect_blocker_def is_red_def get_str_def)

lemma detect_blocker_comment:
  "\<forall>y\<in>set labels. lb_color y \<noteq> Some ''red'' \<Longrightarrow> comments = pre @ cm # post \<Longrightarrow>
   \<forall>y\<in>set pre. \<not> str_contains ''blocker'' (lower (get_str (cm_text y) [])) \<Longrightarrow>
   cm_text cm = Some t \<Longrightarrow> str_contains ''blocker'' (lower t) \<Longrightarrow>
   detect_blocker labels comments =
     Inr (True, Some (''Blocker mentioned in comment: '' @ take 50 t @ ''...''))"
proof -
  assume a: "\<forall>y\<in>set labels. lb_color y \<noteq> Some ''red''" "comments = pre @ cm # post"
    "\<forall>y\<in>set pre. \<not> str_contains ''blocker'' (lower (get_str (cm_text y) []))"
    "cm_text cm = Some t" "str_contains ''blocker'' (lower t)"
  have "find is_red labels = None" using a(1) by (simp add: find_None_iff is_red_def)
  moreover have "find mentions_blocker comments = Some cm"
    using a by (intro find_first [of comments pre cm post]) (auto simp: mentions_blocker_def get_str_def)
  ultimately show ?thesis using a(4) by (simp add: detect_blocker_def)
qed

lemma detect_blocker_none:
  "\<forall>y\<in>set labels. lb_color y \<noteq> Some ''red'' \<Longrightarrow>
   \<forall>y\<in>set comments. \<not> str_contains ''blocker'' (lower (get_str (cm_text y) [])) \<Longrightarrow>
   detect_blocker labels comments = Inr (False, None)"
proof -
  assume a: "\<forall>y\<in>set labels. lb_color y \<noteq> Some ''red''"
    "\<forall>y\<in>set comments. \<not> str_contains ''blocker'' (lower (get_str (cm_text y) []))"
  have "find is_red labels = None" using a(1) by (simp add: find_None_iff is_red_def)
  moreover have "find mentions_blocker comments = None"
    using a(2) by (simp add: find_None_iff mentions_blocker_def)
  ultimately show ?thesis by (simp add: detect_blocker_def)
qed

lemma process_card_blocker:
  "process_card c lm mm = Inr pc \<Longrightarrow>
   \<exists>comments. c_comments pc = Some comments \<and>
     extract_comments (get_list (c_actions c)) = Inr comments \<and>
     detect_blocker (get_list (c_labels c)) comments = Inr (get_bool (c_isBlocker pc), c_blockerReason pc) \<and> c_isBlocker pc \<noteq> None"
  by (auto simp: process_card_def Let_def get_bool_def split: sum.splits prod.splits)

lemma extract_comments_texts:
  "extract_comments as = Inr cms \<Longrightarrow>
   map cm_text cms =
     map (\<lambda>a. case ac_data a of None \<Rightarrow> None | Some d \<Rightarrow> ad_text d)
       (filter (\<lambda>a. ac_type a = Some ''commentCard'') as)"
  by (induction as arbitrary: cms)
     (auto simp: comment_of_action_def split: option.splits if_splits sum.splits)

text \<open>
  Claim C2.  For every card that \<open>_process_card\<close> normalizes: the extracted comments are
  the \<open>commentCard\<close> actions of the card, in order; if some label is red, the card is a
  blocker and the reason is \<open>Red label: \<close> followed by the name of the first red label
  (\<open>Blocker\<close> when that label has no name), whatever the comments say; if no label is red
  and some extracted comment mentions \<open>blocker\<close> in any letter case, the card is a blocker
  and the reason is \<open>Blocker mentioned in comment: \<close>, the first 50 characters of the first
  such comment and \<open>...\<close>; otherwise the card is not a blocker.
\<close>

theorem normalizer_blocker_detection:
  assumes "process_card c lm mm = Inr pc"
  shows
    "map cm_text (get_list (c_comments pc)) =
       map (\<lambda>a. case ac_data a of None \<Rightarrow> None | Some d \<Rightarrow> ad_text d)
         (filter (\<lambda>a. ac_type a = Some ''commentCard'') (get_list (c_actions c))) \<and>
     (\<forall>pre lb post.
        get_list (c_labels c) = pre @ lb # post \<and>
        (\<forall>y\<in>set pre. lb_color y \<noteq> Some ''red'') \<and> lb_color lb = Some ''red'' \<longrightarrow>
        c_isBlocker pc = Some True \<and>
        c_blockerReason pc =
          Some (''Red label: '' @ (case lb_name lb of None \<Rightarrow> ''Blocker'' | Some n \<Rightarrow> n))) \<and>
     ((\<forall>y\<in>set (get_list (c_labels c)). lb_color y \<noteq> Some ''red'') \<longrightarrow>
        (\<forall>pre cm post t.
           get_list (c_comments pc) = pre @ cm # post \<and>
           (\<forall>y\<in>set pre. \<forall>u. cm_text y = Some u \<longrightarrow> \<not> str_contains ''blocker'' (lower u)) \<and>
           cm_text cm = Some t \<and> str_contains ''blocker'' (lower t) \<longrightarrow>
           c_isBlocker pc = Some True \<and>
           c_blockerReason pc = Some (''Blocker mentioned in comment: '' @ take 50 t @ ''...'')) \<and>
        ((\<forall>y\<in>set (get_list (c_comments pc)).
            \<forall>u. cm_text y = Some u \<longrightarrow> \<not> str_contains ''blocker'' (lower u)) \<longrightarrow>
         c_isBlocker pc = Some False \<and> c_blockerReason pc = None))"
proof -
  from process_card_blocker [OF assms] obtain comments where
    cs: "c_comments pc = Some comments"
    and ex: "extract_comments (get_list (c_actions c)) = Inr comments"
    and db: "detect_blocker (get_list (c_labels c)) comments =
               Inr (get_bool (c_isBlocker pc), c_blockerReason pc)"
    and nn: "c_isBlocker pc \<noteq> None"
    by blast
  have gl: "get_list (c_comments pc) = comments" using cs by (simp add: get_list_def)
  have has_text: "\<And>y. y \<in> set comments \<Longrightarrow> \<exists>u. cm_text y = Some u"
    using extract_comments_text [OF ex] by auto
  have quiet: "\<And>S. S \<subseteq> set comments \<Longrightarrow>
      (\<forall>y\<in>S. \<forall>u. cm_text y = Some u \<longrightarrow> \<not> str_contains ''blocker'' (lower u)) \<Longrightarrow>
      (\<forall>y\<in>S. \<not> str_contains ''blocker'' (lower (get_str (cm_text y) [])))"
  proof
    fix S y
    assume S: "S \<subseteq> set comments"
      and q: "\<forall>y\<in>S. \<forall>u. cm_text y = Some u \<longrightarrow> \<not> str_contains ''blocker'' (lower u)"
      and y: "y \<in> S"
    then obtain u where "cm_text y = Some u" using has_text by blast
    then show "\<not> str_contains ''blocker'' (lower (get_str (cm_text y) []))"
      using q y by (simp add: get_str_def)
  qed
  have flag: "\<And>b r. detect_blocker (get_list (c_labels c)) comments = Inr (b, r) \<Longrightarrow>
      c_isBlocker pc = Some b \<and> c_blockerReason pc = r"
    using db nn by (auto simp: get_bool_def split: option.splits)
  have part1: "map cm_text (get_list (c_comments pc)) =
       map (\<lambda>a. case ac_data a of None \<Rightarrow> None | Some d \<Rightarrow> ad_text d)
         (filter (\<lambda>a. ac_type a = Some ''commentCard'') (get_list (c_actions c)))"
    using extract_comments_texts [OF ex] gl by simp
  have part2: "\<forall>pre lb post.
        get_list (c_labels c) = pre @ lb # post \<and>
        (\<forall>y\<in>set pre. lb_color y \<noteq> Some ''red'') \<and> lb_color lb = Some ''red'' \<longrightarrow>
        c_isBlocker pc = Some True \<and>
        c_blockerReason pc =
          Some (''Red label: '' @ (case lb_name lb of None \<Rightarrow> ''Blocker'' | Some n \<Rightarrow> n))"
    using detect_blocker_red flag by blast
  have part3: "(\<forall>y\<in>set (get_list (c_labels c)). lb_color y \<noteq> Some ''red'') \<longrightarrow>
        (\<forall>pre cm post t.
           get_list (c_comments pc) = pre @ cm # post \<and>
           (\<forall>y\<in>set pre. \<forall>u. cm_text y = Some u \<longrightarrow> \<not> str_contains ''blocker'' (lower u)) \<and>
           cm_text cm = Some t \<and> str_contains ''blocker'' (lower t) \<longrightarrow>
           c_isBlocker pc = Some True \<and>
           c_blockerReason pc = Some (''Blocker mentioned in comment: '' @ take 50 t @ ''...''))"
  proof (intro impI allI)
    fix pre cm post t
    assume nored: "\<forall>y\<in>set (get_list (c_labels c)). lb_color y \<noteq> Some ''red''"
      and h: "get_list (c_comments pc) = pre @ cm # post \<and>
           (\<forall>y\<in>set pre. \<forall>u. cm_text y = Some u \<longrightarrow> \<not> str_contains ''blocker'' (lower u)) \<and>
           cm_text cm = Some t \<and> str_contains ''blocker'' (lower t)"
    have dec: "comments = pre @ cm # post" using h gl by simp
    then have "set pre \<subseteq> set comments" by auto
    then have "\<forall>y\<in>set pre. \<not> str_contains ''blocker'' (lower (get_str (cm_text y) []))"
      using quiet h by blast
    then have "detect_blocker (get_list (c_labels c)) comments =
        Inr (True, Some (''Blocker mentioned in comment: '' @ take 50 t @ ''...''))"
      using detect_blocker_comment [OF nored dec] h by blast
    then show "c_isBlocker pc = Some True \<and>
           c_blockerReason pc = Some (''Blocker mentioned in comment: '' @ take 50 t @ ''...'')"
      using flag by blast
  qed
  have part4: "(\<forall>y\<in>set (get_list (c_labels c)). lb_color y \<noteq> Some ''red'') \<longrightarrow>
        (\<forall>y\<in>set (get_list (c_comments pc)).
            \<forall>u. cm_text y = Some u \<longrightarrow> \<not> str_contains ''blocker'' (lower u)) \<longrightarrow>
         c_isBlocker pc = Some False \<and> c_blockerReason pc = None"
  proof (intro impI)
    assume nored: "\<forall>y\<in>set (get_list (c_labels c)). lb_color y \<noteq> Some ''red''"
      and q: "\<forall>y\<in>set (get_list (c_comments pc)).
            \<forall>u. cm_text y = Some u \<longrightarrow> \<not> str_contains ''blocker'' (lower u)"
    have "\<forall>y\<in>set comments. \<not> str_contains ''blocker'' (lower (get_str (cm_text y) []))"
      using quiet [of "set comments"] q gl by simp
    then have "detect_blocker (get_list (c_labels c)) comments = Inr (False, None)"
      using detect_blocker_none [OF nored] by blast
    then show "c_isBlocker pc = Some False \<and> c_blockerReason pc = None"
      using flag by blast
  qed
  show ?thesis using part1 part2 part3 part4 by blast
qed

lemma red_card_runs: "\<exists>pc. process_card red_card [] [] = Inr pc"
  by (simp add: process_card_def red_card_def blank_card_def card_list_name_def get_list_def
    comment_action_def comment_of_action_def detect_blocker_def is_red_def Let_def)

lemma vendor_comment_hit: "str_contains ''blocker'' (lower vendor_comment)"
  by (simp add: vendor_comment_def lower_def lower_char_def)

lemma vendor_comment_reason:
  "''Blocker mentioned in comment: '' @ take 50 vendor_comment @ ''...'' =
   ''Blocker mentioned in comment: BLOCKER: waiting on the vendor to deliver the API ...''"
  by (simp add: vendor_comment_def)

lemma commented_card_runs:
  "\<exists>pc. process_card commented_card [] [] = Inr pc \<and>
     map cm_text (get_list (c_comments pc)) = [Some ''looks fine'', Some vendor_comment]"
  using vendor_comment_hit
  by (simp add: process_card_def commented_card_def blank_card_def card_list_name_def get_list_def
    comment_action_def comment_of_action_def detect_blocker_def is_red_def mentions_blocker_def
    get_str_def lower_def lower_char_def Let_def)

theorem normalizer_blocker_detection_witness:
  "(\<exists>pc. process_card red_card [] [] = Inr pc \<and> c_isBlocker pc = Some True \<and>
      c_blockerReason pc = Some ''Red label: Urgent'') \<and>
   (\<exists>pc. process_card commented_card [] [] = Inr pc \<and> c_isBlocker pc = Some True \<and>
      c_blockerReason pc =
        Some ''Blocker mentioned in comment: BLOCKER: waiting on the vendor to deliver the API ...'')"
proof
  let ?G = "\<lparr>lb_color = Some ''green'', lb_name = Some ''Feature''\<rparr>"
  let ?R = "\<lparr>lb_color = Some ''red'', lb_name = Some ''Urgent''\<rparr>"
  obtain pc where run: "process_card red_card [] [] = Inr pc"
    using red_card_runs by blast
  have labels: "get_list (c_labels red_card) = [?G] @ ?R # [] \<and>
      (\<forall>y\<in>set [?G]. lb_color y \<noteq> Some ''red'') \<and> lb_color ?R = Some ''red''"
    by (simp add: red_card_def blank_card_def get_list_def)
  have "c_isBlocker pc = Some True \<and>
      c_blockerReason pc =
        Some (''Red label: '' @ (case lb_name ?R of None \<Rightarrow> ''Blocker'' | Some n \<Rightarrow> n))"
    by (rule normalizer_blocker_detection
          [OF run, THEN conjunct2, THEN conjunct1, rule_format, of "[?G]" ?R "[]"])
       (rule labels)
  then have res: "c_isBlocker pc = Some True" "c_blockerReason pc = Some ''Red label: Urgent''"
    by simp_all
  show "\<exists>pc. process_card red_card [] [] = Inr pc \<and> c_isBlocker pc = Some True \<and>
      c_blockerReason pc = Some ''Red label: Urgent''"
    by (rule exI [of _ pc]) (intro conjI run res)
next
  from commented_card_runs obtain pc where run: "process_card commented_card [] [] = Inr pc"
    and texts: "map cm_text (get_list (c_comments pc)) = [Some ''looks fine'', Some vendor_comment]"
    by (elim exE conjE)
  from texts obtain c1 c2 where dec: "get_list (c_comments pc) = [c1] @ c2 # []"
    and t1: "cm_text c1 = Some ''looks fine''"
    and t2: "cm_text c2 = Some vendor_comment"
    by auto
  have nored: "\<forall>y\<in>set (get_list (c_labels commented_card)). lb_color y \<noteq> Some ''red''"
    by (simp add: commented_card_def blank_card_def get_list_def)
  have "\<not> str_contains ''blocker'' (lower ''looks fine'')"
    by (simp add: lower_def lower_char_def)
  then have quiet: "\<forall>y\<in>set [c1]. \<forall>u. cm_text y = Some u \<longrightarrow> \<not> str_contains ''blocker'' (lower u)"
    using t1 by simp
  have hit: "str_contains ''blocker'' (lower vendor_comment)"
    by (rule vendor_comment_hit)
  have found: "c_isBlocker pc = Some True \<and>
      c_blockerReason pc = Some (''Blocker mentioned in comment: '' @ take 50 vendor_comment @ ''...'')"
    using normalizer_blocker_detection [OF run] nored dec quiet t2 hit by blast
  have "''Blocker mentioned in comment: '' @ take 50 vendor_comment @ ''...'' =
      ''Blocker mentioned in comment: BLOCKER: waiting on the vendor to deliver the API ...''"
    by (rule vendor_comment_reason)
  then have res: "c_isBlocker pc = Some True" "c_blockerReason pc =
        Some ''Blocker mentioned in comment: BLOCKER: waiting on the vendor to deliver the API ...''"
    using found by simp_all
  show "\<exists>pc. process_card commented_card [] [] = Inr pc \<and> c_isBlocker pc = Some True \<and>
      c_blockerReason pc =
        Some ''Blocker mentioned in comment: BLOCKER: waiting on the vendor to deliver the API ...''"
    by (rule exI [of _ pc]) (intro conjI run res)
qed

subsection \<open>Number of recommendations\<close>

lemma card_flags:
  assumes "distinct [a, b, c, d, e]"
  shows "card ((if p then {a} else {}) \<union> (if q then {b} else {}) \<union> (if r then {c} else {}) \<union>
               (if s then {d} else {}) \<union> (if t then {e} else {})) =
         (if p then 1 else 0) + (if q then 1 else 0) + (if r then 1 else (0::nat)) +
         (if s then 1 else 0) + (if t then 1 else 0)"
  using assms by auto

lemma image_flags:
  assumes "S \<subseteq> {a, b, c, d, e, f}"
    and "h a = a" "h b = b" "h c = g" "h d = g" "h e = e" "h f = f"
  shows "h ` S =
     (if a \<in> S then {a} else {}) \<union> (if b \<in> S then {b} else {}) \<union>
     (if c \<in> S \<or> d \<in> S then {g} else {}) \<union>
     (if e \<in> S then {e} else {}) \<union> (if f \<in> S then {f} else {})"
    (is "?L = ?R")
proof (rule set_eqI)
  fix x
  show "x \<in> ?L \<longleftrightarrow> x \<in> ?R"
  proof
    assume "x \<in> ?L"
    then obtain y where y: "y \<in> S" and x: "x = h y" by (elim imageE)
    from assms(1) y have "y = a \<or> y = b \<or> y = c \<or> y = d \<or> y = e \<or> y = f" by auto
    then show "x \<in> ?R" using y x assms(2-) by auto
  next
    assume "x \<in> ?R"
    then have "(a \<in> S \<and> x = h a) \<or> (b \<in> S \<and> x = h b) \<or> (c \<in> S \<and> x = h c) \<or>
        (d \<in> S \<and> x = h d) \<or> (e \<in> S \<and> x = h e) \<or> (f \<in> S \<and> x = h f)"
      using assms(2-) by (auto split: if_splits)
    then show "x \<in> ?L" by auto
  qed
qed

lemma collapsed_image:
  assumes "S \<subseteq> known_categories"
  shows "collapsed_category ` S =
     (if ''completion_rate'' \<in> S then {''completion_rate''} else {}) \<union>
     (if ''blockers'' \<in> S then {''blockers''} else {}) \<union>
     (if ''approaching_deadlines'' \<in> S \<or> ''overdue'' \<in> S then {''deadlines''} else {}) \<union>
     (if ''workload_imbalance'' \<in> S then {''workload_imbalance''} else {}) \<union>
     (if ''process_bottlenecks'' \<in> S then {''process_bottlenecks''} else {})"
proof (rule image_flags)
  show "S \<subseteq> {''completion_rate'', ''blockers'', ''approaching_deadlines'', ''overdue'',
      ''workload_imbalance'', ''process_bottlenecks''}"
    using assms unfolding known_categories_def .
qed (simp_all add: collapsed_category_def)

lemma collapsed_names_distinct:
  "distinct [''completion_rate'', ''blockers'', ''deadlines'', ''workload_imbalance'',
     ''process_bottlenecks'']"
  by simp

lemma length_generate_recommendations:
  "length (generate_recommendations risks sm tp pb) =
     (let S = set (map r_category risks);
          n = (if ''completion_rate'' \<in> S then 1 else 0) + (if ''blockers'' \<in> S then 1 else 0) +
              (if ''approaching_deadlines'' \<in> S \<or> ''overdue'' \<in> S then 1 else (0::nat)) +
              (if ''workload_imbalance'' \<in> S then 1 else 0) +
              (if ''process_bottlenecks'' \<in> S then 1 else 0)
      in if n = 0 then 1 else n)"
  by (simp add: generate_recommendations_def Let_def)

lemma optional_risk_known:
  "f x \<in> K \<Longrightarrow> set (map f (if c then [x] else [])) \<subseteq> K"
  by (cases c) simp_all

lemma identify_risks_known:
  "set (map r_category (identify_risks cards sm tp pb)) \<subseteq> known_categories"
  unfolding identify_risks_def Let_def map_append set_append
  by (intro Un_least optional_risk_known) (simp_all add: known_categories_def)

text \<open>
  Claim C3.  For every list of risks whose categories are categories of the risk table
  (the only ones \<open>_identify_risks\<close> emits, see \<open>identify_risks_known\<close>), the number of
  recommendations is the number of distinct categories after \<open>approaching_deadlines\<close> and
  \<open>overdue\<close> are collapsed into \<open>deadlines\<close>, and it is 1, the fallback, when there is no
  risk.
\<close>

theorem recommendation_count:
  assumes "set (map r_category risks) \<subseteq> known_categories"
  shows "length (generate_recommendations risks sm tp pb) =
           (if risks = [] then 1 else card (collapsed_category ` set (map r_category risks)))"
proof -
  let ?S = "set (map r_category risks)"
  define n where "n =
     (if ''completion_rate'' \<in> ?S then 1 else 0) + (if ''blockers'' \<in> ?S then 1 else 0) +
     (if ''approaching_deadlines'' \<in> ?S \<or> ''overdue'' \<in> ?S then 1 else (0::nat)) +
     (if ''workload_imbalance'' \<in> ?S then 1 else 0) +
     (if ''process_bottlenecks'' \<in> ?S then 1 else 0)"
  have count: "card (collapsed_category ` ?S) = n"
    unfolding n_def collapsed_image [OF assms]
    by (rule card_flags [OF collapsed_names_distinct])
  have len: "length (generate_recommendations risks sm tp pb) = (if n = 0 then 1 else n)"
    unfolding n_def length_generate_recommendations Let_def ..
  have "n = 0 \<longleftrightarrow> collapsed_category ` ?S = {}"
    using count by (metis card_eq_0_iff finite_imageI finite_set)
  then have "n = 0 \<longleftrightarrow> risks = []" by simp
  then show ?thesis using len count by simp
qed

theorem recommendation_count_witness:
  "set (map r_category example_risks) \<subseteq> known_categories \<and>
   length (generate_recommendations example_risks (metrics_failed (KeyError ''id''))
     (team_failed (KeyError ''id'')) (bottlenecks_failed (KeyError ''id''))) = 2 \<and>
   length (generate_recommendations [] (metrics_failed (KeyError ''id''))
     (team_failed (KeyError ''id'')) (bottlenecks_failed (KeyError ''id''))) = 1"
proof -
  have known: "set (map r_category example_risks) \<subseteq> known_categories"
    by (simp add: example_risks_def known_categories_def)
  have none: "set (map r_category ([]::risk list)) \<subseteq> known_categories"
    by simp
  have two: "card (collapsed_category ` set (map r_category example_risks)) = 2"
    by (simp add: example_risks_def collapsed_category_def)
  have nonempty: "example_risks \<noteq> []"
    by (simp add: example_risks_def)
  show ?thesis
    using known two nonempty
      recommendation_count [OF known, of "metrics_failed (KeyError ''id'')"
        "team_failed (KeyError ''id'')" "bottlenecks_failed (KeyError ''id'')"]
      recommendation_count [OF none, of "metrics_failed (KeyError ''id'')"
        "team_failed (KeyError ''id'')" "bottlenecks_failed (KeyError ''id'')"]
    by simp
qed

subsection \<open>Approaching and overdue deadlines\<close>

lemma dt_less_Naive_left: "dt_less (Naive a) d = Some True \<Longrightarrow> \<exists>b. d = Naive b \<and> a < b"
  by (cases d) auto

lemma dt_less_Naive_right: "dt_less d (Naive a) = Some True \<Longrightarrow> \<exists>b. d = Naive b \<and> b < a"
  by (cases d) auto

lemma is_approaching_due:
  assumes "is_approaching parse now c"
  shows "\<exists>s d. c_due c = Some s \<and> parse (replace_Z s) = Some (Naive d) \<and> now < d"
proof -
  from assms obtain s where s: "c_due c = Some s"
    by (cases "c_due c") (simp_all add: is_approaching_def)
  from assms s obtain due where due: "parse (replace_Z s) = Some due"
    by (cases "parse (replace_Z s)") (simp_all add: is_approaching_def split: if_splits)
  from assms s due have "dt_less (Naive now) due = Some True"
    by (cases "dt_less (Naive now) due") (simp_all add: is_approaching_def split: if_splits)
  then obtain d where "due = Naive d" "now < d" using dt_less_Naive_left by blast
  then show ?thesis using s due by blast
qed

lemma is_overdue_due:
  assumes "is_overdue parse now c"
  shows "\<exists>s d. c_due c = Some s \<and> parse (replace_Z s) = Some (Naive d) \<and> d < now"
proof -
  from assms obtain s where s: "c_due c = Some s"
    by (cases "c_due c") (simp_all add: is_overdue_def)
  from assms s obtain due where due: "parse (replace_Z s) = Some due"
    by (cases "parse (replace_Z s)") (simp_all add: is_overdue_def split: if_splits)
  from assms s due have "dt_less due (Naive now) = Some True"
    by (cases "dt_less due (Naive now)") (simp_all add: is_overdue_def split: if_splits)
  then obtain d where "due = Naive d" "d < now" using dt_less_Naive_right by blast
  then show ?thesis using s due by blast
qed

lemma entries_disjoint:
  "set (map (deadline_entry_of lm) (filter (is_approaching parse now) cards)) \<inter>
   set (map (deadline_entry_of lm) (filter (is_overdue parse now) cards)) = {}"
proof (rule ccontr)
  assume "\<not> ?thesis"
  then obtain e where e1: "e \<in> set (map (deadline_entry_of lm) (filter (is_approaching parse now) cards))"
    and e2: "e \<in> set (map (deadline_entry_of lm) (filter (is_overdue parse now) cards))"
    by blast
  from e1 obtain a where a: "is_approaching parse now a" "e = deadline_entry_of lm a" by auto
  from e2 obtain b where b: "is_overdue parse now b" "e = deadline_entry_of lm b" by auto
  from is_approaching_due [OF a(1)] obtain s d where
    sd: "c_due a = Some s" "parse (replace_Z s) = Some (Naive d)" "now < d" by blast
  from is_overdue_due [OF b(1)] obtain s' d' where
    sd': "c_due b = Some s'" "parse (replace_Z s') = Some (Naive d')" "d' < now" by blast
  have "de_due (deadline_entry_of lm a) = de_due (deadline_entry_of lm b)" using a(2) b(2) by simp
  then have "s = s'" using sd(1) sd'(1) by (simp add: deadline_entry_of_def get_str_def)
  then have "d = d'" using sd(2) sd'(2) by simp
  then show False using sd(3) sd'(3) by simp
qed

text \<open>
  Claim C10.  For one reading \<open>now\<close> of the clock, the approaching-deadline entries and
  the overdue entries of \<open>calculate_sprint_metrics\<close> have no entry in common, and no card
  passes both tests: the first needs \<open>now < due\<close>, the second \<open>due < now\<close>.
\<close>

theorem deadline_lists_disjoint:
  "set (sm_approaching_deadlines (calculate_sprint_metrics parse now cards lsts)) \<inter>
   set (sm_overdue_cards (calculate_sprint_metrics parse now cards lsts)) = {} \<and>
   filter (\<lambda>c. is_approaching parse now c \<and> is_overdue parse now c) cards = []"
proof
  show "set (sm_approaching_deadlines (calculate_sprint_metrics parse now cards lsts)) \<inter>
   set (sm_overdue_cards (calculate_sprint_metrics parse now cards lsts)) = {}"
    using entries_disjoint
    by (simp add: calculate_sprint_metrics_def metrics_failed_def Let_def split: sum.splits)
next
  have "\<not> (is_approaching parse now c \<and> is_overdue parse now c)" for c
  proof
    assume h: "is_approaching parse now c \<and> is_overdue parse now c"
    from is_approaching_due [of parse now c] h obtain s d where
      sd: "c_due c = Some s" "parse (replace_Z s) = Some (Naive d)" "now < d" by blast
    from is_overdue_due [of parse now c] h obtain s' d' where
      sd': "c_due c = Some s'" "parse (replace_Z s') = Some (Naive d')" "d' < now" by blast
    from sd sd' show False by simp
  qed
  then show "filter (\<lambda>c. is_approaching parse now c \<and> is_overdue parse now c) cards = []"
    by simp
qed

subsection \<open>Normalized cards carry no member ids\<close>

lemma process_card_keys:
  "process_card c lm mm = Inr pc \<Longrightarrow>
     c_members pc = Some (card_members mm (get_list (c_idMembers c))) \<and> c_idMembers pc = None"
  by (auto simp: process_card_def Let_def split: sum.splits prod.splits)

lemma process_cards_no_idMembers:
  "process_cards lm mm cs = Inr pcs \<Longrightarrow> pc \<in> set pcs \<Longrightarrow> c_idMembers pc = None"
proof (induction cs arbitrary: pcs)
  case Nil
  then show ?case by simp
next
  case (Cons c cs)
  from Cons.prems(1) obtain p ps where p: "process_card c lm mm = Inr p"
    and ps: "process_cards lm mm cs = Inr ps" and pcs: "pcs = p # ps"
    by (auto split: sum.splits)
  show ?case
  proof (cases "pc = p")
    case True
    then show ?thesis using process_card_keys [OF p] by simp
  next
    case False
    then have "pc \<in> set ps" using Cons.prems(2) pcs by simp
    then show ?thesis using Cons.IH [OF ps] by simp
  qed
qed

lemma normalized_cards_no_idMembers:
  "pc \<in> set (get_list (s_cards (process_trello_data bd))) \<Longrightarrow> c_idMembers pc = None"
proof -
  assume pc: "pc \<in> set (get_list (s_cards (process_trello_data bd)))"
  show ?thesis
  proof (cases "snapshot_is_empty bd \<or> s_error bd \<noteq> None")
    case True
    then have "get_list (s_cards (process_trello_data bd)) = []"
      by (simp add: process_trello_data_def error_snapshot_def get_list_def)
    then show ?thesis using pc by simp
  next
    case False
    show ?thesis
    proof (cases "process_board bd")
      case (Inl e)
      then have "get_list (s_cards (process_trello_data bd)) = []"
        using False by (simp add: process_trello_data_def error_snapshot_def get_list_def)
      then show ?thesis using pc by simp
    next
      case (Inr r)
      then have out: "process_trello_data bd = r"
        using False by (simp add: process_trello_data_def)
      from Inr obtain lm mm pcs where
        run: "process_cards lm mm (get_list (s_cards bd)) = Inr pcs" and r: "s_cards r = Some pcs"
        by (auto simp: process_board_def Let_def split: sum.splits)
      then have "pc \<in> set pcs" using pc out by (simp add: get_list_def)
      then show ?thesis using process_cards_no_idMembers [OF run] by simp
    qed
  qed
qed

lemma assign_cards_unassigned:
  "\<forall>c\<in>set cards. c_idMembers c = None \<Longrightarrow>
   fold (assign_card parse clock mm) cards st = st"
  by (induction cards arbitrary: st) (simp_all add: assign_card_def get_list_def)

lemma team_performance_unassigned:
  assumes "\<forall>c\<in>set cards. c_idMembers c = None"
  shows "tp_cards_by_member (analyze_team_performance parse clock cards mbs) = [] \<and>
         tp_member_count (analyze_team_performance parse clock cards mbs) = 0 \<and>
         tp_avg_cards_per_member (analyze_team_performance parse clock cards mbs) = 0 \<and>
         tp_members_with_high_workload (analyze_team_performance parse clock cards mbs) = []"
  by (cases "member_name_map mbs []")
     (simp_all add: analyze_team_performance_def analyze_team_performance_clocked_def
        team_failed_def assign_cards_unassigned [OF assms] high_workload_def Let_def)

text \<open>
  Claim C9.  A card written by \<open>_process_card\<close> has the key \<open>members\<close> and not the key
  \<open>idMembers\<close>.  \<open>analyze_team_performance\<close> reads \<open>idMembers\<close> only, so on the cards
  of any output of \<open>process_trello_data\<close>, with any member list, it reports no member:
  \<open>cards_by_member\<close> is empty, \<open>member_count\<close> and \<open>avg_cards_per_member\<close> are 0 and
  \<open>members_with_high_workload\<close> is empty.
\<close>

theorem normalized_cards_have_no_assignments:
  "(process_card c lm mm = Inr pc \<longrightarrow> c_members pc \<noteq> None \<and> c_idMembers pc = None) \<and>
   tp_cards_by_member (analyze_team_performance parse clock
      (get_list (s_cards (process_trello_data bd))) mbs) = [] \<and>
   tp_member_count (analyze_team_performance parse clock
      (get_list (s_cards (process_trello_data bd))) mbs) = 0 \<and>
   tp_avg_cards_per_member (analyze_team_performance parse clock
      (get_list (s_cards (process_trello_data bd))) mbs) = 0 \<and>
   tp_members_with_high_workload (analyze_team_performance parse clock
      (get_list (s_cards (process_trello_data bd))) mbs) = []"
proof
  show "process_card c lm mm = Inr pc \<longrightarrow> c_members pc \<noteq> None \<and> c_idMembers pc = None"
    using process_card_keys [of c lm mm pc] by simp
next
  have "\<forall>x\<in>set (get_list (s_cards (process_trello_data bd))). c_idMembers x = None"
    using normalized_cards_no_idMembers by blast
  from team_performance_unassigned [OF this]
  show "tp_cards_by_member (analyze_team_performance parse clock
      (get_list (s_cards (process_trello_data bd))) mbs) = [] \<and>
   tp_member_count (analyze_team_performance parse clock
      (get_list (s_cards (process_trello_data bd))) mbs) = 0 \<and>
   tp_avg_cards_per_member (analyze_team_performance parse clock
      (get_list (s_cards (process_trello_data bd))) mbs) = 0 \<and>
   tp_members_with_high_workload (analyze_team_performance parse clock
      (get_list (s_cards (process_trello_data bd))) mbs) = []" .
qed

lemma assigned_raw_card_runs:
  "\<exists>pc. process_card assigned_raw_card [(''l1'', todo_list)] [(''m1'', ada)] = Inr pc"
  by (simp add: process_card_def assigned_raw_card_def blank_card_def card_list_name_def
      todo_list_def get_list_def detect_blocker_def Let_def)

theorem normalized_cards_have_no_assignments_witness:
  "\<exists>pc. process_card assigned_raw_card [(''l1'', todo_list)] [(''m1'', ada)] = Inr pc \<and>
      c_members pc \<noteq> None \<and> c_idMembers pc = None"
proof -
  from assigned_raw_card_runs obtain pc where
    run: "process_card assigned_raw_card [(''l1'', todo_list)] [(''m1'', ada)] = Inr pc"
    by (elim exE)
  have keys: "c_members pc \<noteq> None \<and> c_idMembers pc = None"
    by (rule normalized_cards_have_no_assignments [THEN conjunct1, THEN mp, OF run])
  show ?thesis
    by (rule exI [of _ pc]) (intro conjI run keys [THEN conjunct1] keys [THEN conjunct2])
qed

subsection \<open>Dependence of a run on the clock\<close>

lemma no_due_not_approaching: "\<not> truthy_str (c_due c) \<Longrightarrow> \<not> is_approaching parse now c"
  by (cases "c_due c") (simp_all add: is_approaching_def)

lemma no_due_not_overdue: "\<not> truthy_str (c_due c) \<Longrightarrow> \<not> is_overdue parse now c"
  by (cases "c_due c") (simp_all add: is_overdue_def)

lemma no_due_assignment: "\<not> truthy_str (c_due c) \<Longrightarrow> assignment_overdue parse clock c k = (False, k)"
  by (cases "c_due c") (simp_all add: assignment_overdue_def)

lemma metrics_without_due_dates:
  assumes "\<forall>c\<in>set cards. \<not> truthy_str (c_due c)"
  shows "calculate_sprint_metrics parse now1 cards lsts = calculate_sprint_metrics parse now2 cards lsts"
proof -
  have a: "filter (is_approaching parse now) cards = []" for now
    using assms no_due_not_approaching by (simp add: filter_empty_conv)
  have b: "filter (is_overdue parse now) cards = []" for now
    using assms no_due_not_overdue by (simp add: filter_empty_conv)
  show ?thesis
    unfolding calculate_sprint_metrics_def a b ..
qed

lemma assign_member_without_due_date:
  "\<not> truthy_str (c_due c) \<Longrightarrow>
   assign_member parse clock mm c mid st = assign_member parse (\<lambda>k. 0) mm c mid st"
  by (simp add: assign_member_def no_due_assignment Let_def)

lemma assign_card_without_due_date:
  assumes "\<not> truthy_str (c_due c)"
  shows "assign_card parse clock mm c st = assign_card parse (\<lambda>k. 0) mm c st"
proof -
  have "fold (assign_member parse clock mm c) ids st = fold (assign_member parse (\<lambda>k. 0) mm c) ids st"
    for ids
  proof (induction ids arbitrary: st)
    case Nil
    then show ?case by simp
  next
    case (Cons mid ids)
    have "assign_member parse clock mm c mid st = assign_member parse (\<lambda>k. 0) mm c mid st"
      by (rule assign_member_without_due_date [OF assms])
    then show ?case using Cons by simp
  qed
  then show ?thesis by (simp add: assign_card_def)
qed

lemma assign_cards_without_due_dates:
  "\<forall>c\<in>set cards. \<not> truthy_str (c_due c) \<Longrightarrow>
   fold (assign_card parse clock mm) cards st = fold (assign_card parse (\<lambda>k. 0) mm) cards st"
proof (induction cards arbitrary: st)
  case Nil
  then show ?case by simp
next
  case (Cons c cards)
  have "\<not> truthy_str (c_due c)" using Cons.prems by simp
  then have step: "assign_card parse clock mm c st = assign_card parse (\<lambda>k. 0) mm c st"
    by (rule assign_card_without_due_date)
  have rest: "\<forall>c\<in>set cards. \<not> truthy_str (c_due c)" using Cons.prems by simp
  show ?case using Cons.IH [OF rest] step by simp
qed

lemma team_without_due_dates:
  assumes "\<forall>c\<in>set cards. \<not> truthy_str (c_due c)"
  shows "analyze_team_performance_clocked parse clock1 cards mbs =
         analyze_team_performance_clocked parse clock2 cards mbs"
  unfolding analyze_team_performance_clocked_def
    assign_cards_without_due_dates [OF assms, of parse clock1]
    assign_cards_without_due_dates [OF assms, of parse clock2] ..

text \<open>
  Claim C8, as amended.  A run is a function of its input snapshot and of the clock
  readings it takes.  The timestamp of the result is a clock reading, and the deadline
  tests compare due dates with the clock, so two runs on the same snapshot can differ
  (\<open>repeated_runs_differ\<close> below).  When no card of the snapshot carries a due date, two
  runs of \<open>analyze_sprint_data\<close> on it agree on everything but the timestamp, and two
  runs of \<open>calculate_sprint_metrics\<close> on its cards agree, whatever the clocks read.
\<close>

theorem runs_agree_without_due_dates:
  assumes "\<forall>c\<in>set (get_list (s_cards d)). \<not> truthy_str (c_due c)"
  shows "without_timestamp (analyze_sprint_data parse clock1 d) =
           without_timestamp (analyze_sprint_data parse clock2 d) \<and>
         calculate_sprint_metrics parse now1 (get_list (s_cards d)) lsts =
           calculate_sprint_metrics parse now2 (get_list (s_cards d)) lsts"
proof
  have m: "calculate_sprint_metrics parse (clock1 0) (get_list (s_cards d)) (get_list (s_lists d)) =
           calculate_sprint_metrics parse (clock2 0) (get_list (s_cards d)) (get_list (s_lists d))"
    by (rule metrics_without_due_dates [OF assms])
  have t: "analyze_team_performance_clocked parse (\<lambda>k. clock1 (Suc k)) (get_list (s_cards d))
             (get_list (s_members d)) =
           analyze_team_performance_clocked parse (\<lambda>k. clock2 (Suc k)) (get_list (s_cards d))
             (get_list (s_members d))"
    by (rule team_without_due_dates [OF assms])
  show "without_timestamp (analyze_sprint_data parse clock1 d) =
           without_timestamp (analyze_sprint_data parse clock2 d)"
    unfolding analyze_sprint_data_def Let_def m t
    by (cases "snapshot_is_empty d \<or> s_error d \<noteq> None") simp_all
next
  show "calculate_sprint_metrics parse now1 (get_list (s_cards d)) lsts =
           calculate_sprint_metrics parse now2 (get_list (s_cards d)) lsts"
    by (rule metrics_without_due_dates [OF assms])
qed

lemma analysis_timestamp:
  assumes "s_error d = None" "s_cards d = Some []"
  shows "\<exists>r. analyze_sprint_data parse clock d = Analysis r \<and> ar_timestamp r = clock (Suc 0)"
  using assms
  by (simp add: analyze_sprint_data_def snapshot_is_empty_def get_list_def
      analyze_team_performance_clocked_def Let_def split: sum.splits)

theorem runs_agree_without_due_dates_witness:
  "without_timestamp (analyze_sprint_data day_parser (frozen_clock 0) small_board) =
     without_timestamp (analyze_sprint_data day_parser (frozen_clock 1) small_board) \<and>
   calculate_sprint_metrics day_parser 0 (get_list (s_cards small_board)) [todo_list] =
     calculate_sprint_metrics day_parser 10 (get_list (s_cards small_board)) [todo_list]"
proof -
  have h: "\<forall>c\<in>set (get_list (s_cards small_board)). \<not> truthy_str (c_due c)"
    by (simp add: small_board_def get_list_def assigned_raw_card_def blank_card_def)
  show ?thesis
    by (rule runs_agree_without_due_dates [OF h])
qed

lemma due_card_approaching:
  "is_approaching day_parser 0 due_card \<and> \<not> is_approaching day_parser 10 due_card"
  by (simp add: is_approaching_def day_parser_def due_card_def blank_card_def replace_Z_def
      three_days_def get_bool_def)

lemma approaching_entries:
  "sm_approaching_deadlines (calculate_sprint_metrics parse now [c] []) =
     (if is_approaching parse now c then [deadline_entry_of [] c] else [])"
  by (simp add: calculate_sprint_metrics_def Let_def)

text \<open>
  The claim as stated fails: on the same board, two runs of \<open>analyze_sprint_data\<close> that
  read different clocks return different results (the timestamps differ), and
  \<open>calculate_sprint_metrics\<close> classifies the same card as approaching at one time and as
  not approaching at a later one.
\<close>

theorem repeated_runs_differ:
  "analyze_sprint_data day_parser (frozen_clock 0) empty_board \<noteq>
     analyze_sprint_data day_parser (frozen_clock 1) empty_board \<and>
   calculate_sprint_metrics day_parser 0 [due_card] [] \<noteq>
     calculate_sprint_metrics day_parser 10 [due_card] []"
proof
  have e: "s_error empty_board = None" "s_cards empty_board = Some []"
    by (simp_all add: empty_board_def)
  from analysis_timestamp [OF e, of day_parser "frozen_clock 0"] obtain r0 where
    r0: "analyze_sprint_data day_parser (frozen_clock 0) empty_board = Analysis r0"
    "ar_timestamp r0 = 0"
    by (auto simp: frozen_clock_def)
  from analysis_timestamp [OF e, of day_parser "frozen_clock 1"] obtain r1 where
    r1: "analyze_sprint_data day_parser (frozen_clock 1) empty_board = Analysis r1"
    "ar_timestamp r1 = 1"
    by (auto simp: frozen_clock_def)
  have "r0 \<noteq> r1" using r0(2) r1(2) by auto
  then show "analyze_sprint_data day_parser (frozen_clock 0) empty_board \<noteq>
     analyze_sprint_data day_parser (frozen_clock 1) empty_board"
    using r0(1) r1(1) by simp
next
  have "sm_approaching_deadlines (calculate_sprint_metrics day_parser 0 [due_card] []) \<noteq>
        sm_approaching_deadlines (calculate_sprint_metrics day_parser 10 [due_card] [])"
    using due_card_approaching by (simp add: approaching_entries)
  then show "calculate_sprint_metrics day_parser 0 [due_card] [] \<noteq>
     calculate_sprint_metrics day_parser 10 [due_card] []"
    by (rule contrapos_nn) (erule arg_cong)
qed

subsection \<open>Dictionaries and counting loops\<close>

lemma dict_get_set: "dict_get (dict_set d k v) k' = (if k' = k then Some v else dict_get d k')"
  by (induction d) auto

lemma dict_get_None_iff: "dict_get d k = None \<longleftrightarrow> k \<notin> set (map fst d)"
  by (induction d) (auto split: if_splits)

lemma dict_set_keys:
  "map fst (dict_set d k v) = (if k \<in> set (map fst d) then map fst d else map fst d @ [k])"
  by (induction d) (auto split: if_splits)

lemma dict_set_key_set: "set (map fst (dict_set d k v)) = insert k (set (map fst d))"
  by (auto simp: dict_set_keys)

lemma dict_set_key_image: "fst ` set (dict_set d k v) = insert k (fst ` set d)"
  using dict_set_key_set [of d k v] by simp

lemma dict_get_None_image: "dict_get d k = None \<longleftrightarrow> k \<notin> fst ` set d"
  using dict_get_None_iff [of d k] by simp

lemma dict_set_distinct: "distinct (map fst d) \<Longrightarrow> distinct (map fst (dict_set d k v))"
  by (simp add: dict_set_keys)

lemma dict_get_Some_iff:
  "distinct (map fst d) \<Longrightarrow> dict_get d k = Some v \<longleftrightarrow> (k, v) \<in> set d"
proof (induction d)
  case Nil
  then show ?case by simp
next
  case (Cons p d)
  obtain a b where p: "p = (a, b)" by (cases p)
  show ?case
  proof (cases "a = k")
    case True
    then have "k \<notin> set (map fst d)" using Cons.prems p by simp
    then have "(k, v) \<notin> set d" by (metis fst_conv image_eqI list.set_map)
    then show ?thesis using True p by auto
  next
    case False
    then show ?thesis using Cons p by simp
  qed
qed

lemma dict_values_sum:
  "distinct (map fst d) \<Longrightarrow>
   sum_list (map snd d) = (\<Sum>k\<in>set (map fst d). dict_get_default d k (0::nat))"
proof (induction d)
  case Nil
  then show ?case by simp
next
  case (Cons p d)
  obtain k v where p: "p = (k, v)" by (cases p)
  have fresh: "k \<notin> set (map fst d)" using Cons.prems p by auto
  have same: "(\<Sum>x\<in>set (map fst d). dict_get_default ((k, v) # d) x 0) =
              (\<Sum>x\<in>set (map fst d). dict_get_default d x 0)"
    using fresh by (intro sum.cong) (auto simp: dict_get_default_def)
  have "sum_list (map snd (p # d)) = v + (\<Sum>x\<in>set (map fst d). dict_get_default d x 0)"
    using Cons p by simp
  also have "\<dots> = (\<Sum>x\<in>insert k (set (map fst d)). dict_get_default ((k, v) # d) x 0)"
    using fresh same by (simp add: dict_get_default_def)
  finally show ?case using p by simp
qed

text \<open>Counting into a dictionary.\<close>

lemma tally_count:
  assumes step: "\<And>c d. step c d =
      (case res c of None \<Rightarrow> d | Some n \<Rightarrow> dict_set d n (dict_get_default d n 0 + 1))"
  shows "dict_get_default (fold step cards d0) n (0::nat) =
         dict_get_default d0 n 0 + length (filter (\<lambda>c. res c = Some n) cards)"
proof (induction cards arbitrary: d0)
  case Nil
  then show ?case by simp
next
  case (Cons c cards)
  have "dict_get_default (step c d0) n 0 =
        dict_get_default d0 n 0 + (if res c = Some n then 1 else 0)"
    by (cases "res c") (auto simp: step dict_get_default_def dict_get_set)
  then show ?case using Cons.IH [of "step c d0"] by simp
qed

lemma tally_keys:
  assumes step: "\<And>c d. step c d =
      (case res c of None \<Rightarrow> d | Some n \<Rightarrow> dict_set d n (dict_get_default d n 0 + 1))"
  shows "set (map fst (fold step cards d0)) = set (map fst d0) \<union> {n. \<exists>c\<in>set cards. res c = Some n}"
proof (induction cards arbitrary: d0)
  case Nil
  then show ?case by simp
next
  case (Cons c cards)
  have "set (map fst (step c d0)) = set (map fst d0) \<union> {n. res c = Some n}"
    by (cases "res c") (auto simp: step dict_set_key_image)
  then show ?case using Cons.IH [of "step c d0"] by auto
qed

lemma tally_distinct:
  assumes step: "\<And>c d. step c d =
      (case res c of None \<Rightarrow> d | Some n \<Rightarrow> dict_set d n (dict_get_default d n 0 + 1))"
  shows "distinct (map fst d0) \<Longrightarrow> distinct (map fst (fold step cards (d0 :: (string, nat) dict)))"
proof (induction cards arbitrary: d0)
  case Nil
  then show ?case by simp
next
  case (Cons c cards)
  have "distinct (map fst (step c d0))"
    using Cons.prems by (cases "res c") (auto simp: step dict_set_distinct)
  then show ?case using Cons.IH [of "step c d0"] by simp
qed

subsection \<open>Lists of a board and the completion rate\<close>

lemma find_snoc:
  "find P (xs @ [x]) = (case find P xs of None \<Rightarrow> (if P x then Some x else None) | Some y \<Rightarrow> Some y)"
  by (induction xs) auto

lemma list_name_map_total:
  "well_formed_lists lsts \<Longrightarrow> \<exists>lm. list_name_map lsts acc = Inr lm"
  by (induction lsts arbitrary: acc) (auto simp: well_formed_lists_def)

lemma list_name_map_lookup:
  "list_name_map lsts acc = Inr lm \<Longrightarrow>
   dict_get lm i =
     (case find (\<lambda>l. l_id l = Some i) (rev lsts) of
        None \<Rightarrow> dict_get acc i
      | Some l \<Rightarrow> l_name l)"
proof (induction lsts arbitrary: acc)
  case Nil
  then show ?case by simp
next
  case (Cons l ls)
  from Cons.prems obtain j n where j: "l_id l = Some j" and n: "l_name l = Some n"
    and rest: "list_name_map ls (dict_set acc j n) = Inr lm"
    by (auto split: option.splits)
  show ?case
    using Cons.IH [OF rest] j n
    by (auto simp: find_snoc dict_get_set split: option.splits)
qed

lemma list_name_map_resolves:
  "list_name_map lsts [] = Inr lm \<Longrightarrow> dict_get lm i = list_name_of lsts i"
  using list_name_map_lookup [of lsts "[]" lm i]
  by (simp add: list_name_of_def split: option.splits)

lemma zero_counts_total:
  "well_formed_lists lsts \<Longrightarrow> \<exists>z. zero_counts lsts d = Inr z"
  by (induction lsts arbitrary: d) (auto simp: well_formed_lists_def)

lemma zero_counts_zero:
  "zero_counts lsts d = Inr z \<Longrightarrow> \<forall>n. dict_get_default d n 0 = 0 \<Longrightarrow>
   dict_get_default z n 0 = 0"
proof (induction lsts arbitrary: d)
  case Nil
  then show ?case by simp
next
  case (Cons l ls)
  from Cons.prems(1) obtain m where m: "l_name l = Some m"
    and rest: "zero_counts ls (dict_set d m 0) = Inr z"
    by (auto split: option.splits)
  have "\<forall>n. dict_get_default (dict_set d m 0) n 0 = 0"
    using Cons.prems(2) by (simp add: dict_get_default_def dict_get_set)
  then show ?case using Cons.IH [OF rest] by simp
qed

lemma count_card_tally:
  assumes "list_name_map lsts [] = Inr lm"
  shows "count_card lm c d =
     (case list_of_card lsts c of
        None \<Rightarrow> d
      | Some n \<Rightarrow> dict_set d n (dict_get_default d n 0 + 1))"
  by (simp add: count_card_def list_of_card_def list_name_map_resolves [OF assms]
      split: option.splits)

lemma completed_cards_count:
  assumes lm: "list_name_map lsts [] = Inr lm" and z: "zero_counts lsts [] = Inr zeros"
  shows "dict_get_default (fold (count_card lm) cards zeros) n 0 = cards_in_list lsts cards n"
proof -
  have "dict_get_default zeros n 0 = 0"
    by (rule zero_counts_zero [OF z]) (simp add: dict_get_default_def)
  then show ?thesis
    using tally_count [of "count_card lm" "list_of_card lsts", OF count_card_tally [OF lm], of cards zeros n]
    by (simp add: cards_in_list_def)
qed

lemma metrics_completion_rate:
  assumes "well_formed_lists lsts"
  shows "sm_completion_rate (calculate_sprint_metrics parse now cards lsts) =
     (if cards = [] then 0
      else of_nat (cards_in_list lsts cards ''Done'') / of_nat (length cards) * 100)"
proof -
  from list_name_map_total [OF assms] obtain lm where lm: "list_name_map lsts [] = Inr lm"
    by blast
  from zero_counts_total [OF assms] obtain zeros where z: "zero_counts lsts [] = Inr zeros"
    by blast
  show ?thesis
    by (simp add: calculate_sprint_metrics_def lm z completed_cards_count [OF lm z] Let_def)
qed

subsection \<open>The scenario of ten cards with three done\<close>

lemma plain_card_no_blocker: "plain_card c \<Longrightarrow> \<not> metrics_is_blocker c"
  by (simp add: plain_card_def metrics_is_blocker_def)

lemma plain_cards_metrics:
  assumes "list_all plain_card cards"
  shows "sm_blockers (calculate_sprint_metrics parse now cards lsts) = [] \<and>
         sm_approaching_deadlines (calculate_sprint_metrics parse now cards lsts) = [] \<and>
         sm_overdue_cards (calculate_sprint_metrics parse now cards lsts) = []"
proof -
  have a: "filter metrics_is_blocker cards = []"
    using assms plain_card_no_blocker by (auto simp: filter_empty_conv list_all_iff)
  have b: "filter (is_approaching parse now) cards = []"
    using assms no_due_not_approaching by (auto simp: filter_empty_conv list_all_iff plain_card_def)
  have c: "filter (is_overdue parse now) cards = []"
    using assms no_due_not_overdue by (auto simp: filter_empty_conv list_all_iff plain_card_def)
  show ?thesis
    by (cases "list_name_map lsts []"; cases "zero_counts lsts []")
       (simp_all add: calculate_sprint_metrics_def metrics_failed_def a b c Let_def)
qed

lemma identify_risks_sparse:
  assumes "sm_completion_rate sm = 30" "sm_blockers sm = []"
    "sm_approaching_deadlines sm = []" "sm_overdue_cards sm = []"
  shows "\<exists>w b. identify_risks cards sm tp pb =
       completion_risk_30 #
       (if tp_members_with_high_workload tp \<noteq> [] then [w] else []) @
       (if pb_bottlenecks pb \<noteq> [] then [b] else []) \<and>
       r_category w = ''workload_imbalance'' \<and> r_category b = ''process_bottlenecks''"
  using assms
  by (intro exI [of _ "\<lparr>r_category = ''workload_imbalance'', r_severity = ''medium'',
                r_description = High_workloads (length (tp_members_with_high_workload tp)),
                r_impact = ''Uneven workload distribution may lead to burnout and delays''\<rparr>"]
      exI [of _ "\<lparr>r_category = ''process_bottlenecks'',
                r_severity =
                  (if list_ex (\<lambda>b. bn_ratio_to_avg b > 2) (pb_bottlenecks pb) then ''high'' else ''medium''),
                r_description = Bottlenecks_identified (length (pb_bottlenecks pb)),
                r_impact = ''Tasks are piling up in specific stages of the process''\<rparr>"])
     (simp add: identify_risks_def completion_risk_30_def Let_def)

lemma recommendations_sparse:
  assumes "risks = x # (if p then [w] else []) @ (if q then [b] else [])"
    "r_category x = ''completion_rate''"
    "r_category w = ''workload_imbalance''" "r_category b = ''process_bottlenecks''"
  shows "generate_recommendations risks sm tp pb =
       rec_completion_rate # (if p then [rec_workload] else []) @ (if q then [rec_process] else [])"
  using assms by (cases p; cases q) (simp_all add: generate_recommendations_def Let_def)

lemma analyze_sprint_data_unfold:
  assumes "s_error d = None" "s_cards d \<noteq> None"
  shows "\<exists>stamp. analyze_sprint_data parse clock d =
     Analysis
       \<lparr>ar_timestamp = stamp,
        ar_sprint_metrics =
          calculate_sprint_metrics parse (clock 0) (get_list (s_cards d)) (get_list (s_lists d)),
        ar_team_performance =
          analyze_team_performance parse (\<lambda>k. clock (Suc k)) (get_list (s_cards d))
            (get_list (s_members d)),
        ar_process_bottlenecks =
          identify_process_bottlenecks (get_list (s_cards d)) (get_list (s_lists d)),
        ar_burn_down = calculate_burn_down (get_list (s_cards d)) (get_list (s_lists d)),
        ar_velocity = calculate_velocity (get_list (s_cards d)),
        ar_risks =
          identify_risks (get_list (s_cards d))
            (calculate_sprint_metrics parse (clock 0) (get_list (s_cards d)) (get_list (s_lists d)))
            (analyze_team_performance parse (\<lambda>k. clock (Suc k)) (get_list (s_cards d))
               (get_list (s_members d)))
            (identify_process_bottlenecks (get_list (s_cards d)) (get_list (s_lists d))),
        ar_recommendations =
          generate_recommendations
            (identify_risks (get_list (s_cards d))
               (calculate_sprint_metrics parse (clock 0) (get_list (s_cards d)) (get_list (s_lists d)))
               (analyze_team_performance parse (\<lambda>k. clock (Suc k)) (get_list (s_cards d))
                  (get_list (s_members d)))
               (identify_process_bottlenecks (get_list (s_cards d)) (get_list (s_lists d))))
            (calculate_sprint_metrics parse (clock 0) (get_list (s_cards d)) (get_list (s_lists d)))
            (analyze_team_performance parse (\<lambda>k. clock (Suc k)) (get_list (s_cards d))
               (get_list (s_members d)))
            (identify_process_bottlenecks (get_list (s_cards d)) (get_list (s_lists d))),
        ar_sprint_end_date = None, ar_days_remaining = None\<rparr>"
proof -
  have "\<not> (snapshot_is_empty d \<or> s_error d \<noteq> None)"
    using assms by (simp add: snapshot_is_empty_def)
  then show ?thesis
    unfolding analyze_sprint_data_def Let_def analyze_team_performance_def by simp
qed

lemma sparse_board_analysis:
  assumes err: "s_error d = None"
    and wf: "well_formed_lists (get_list (s_lists d))"
    and ten: "length (get_list (s_cards d)) = 10"
    and three: "cards_in_list (get_list (s_lists d)) (get_list (s_cards d)) ''Done'' = 3"
    and plain: "list_all plain_card (get_list (s_cards d))"
  shows "\<exists>r. analyze_sprint_data parse clock d = Analysis r \<and>
     sm_completion_rate (ar_sprint_metrics r) = 30 \<and>
     completion_risk_30 \<in> set (ar_risks r) \<and>
     ar_recommendations r =
       rec_completion_rate #
       (if tp_members_with_high_workload (ar_team_performance r) \<noteq> [] then [rec_workload] else []) @
       (if pb_bottlenecks (ar_process_bottlenecks r) \<noteq> [] then [rec_process] else [])"
proof -
  let ?cards = "get_list (s_cards d)"
  let ?lsts = "get_list (s_lists d)"
  let ?sm = "calculate_sprint_metrics parse (clock 0) ?cards ?lsts"
  let ?tp = "analyze_team_performance parse (\<lambda>k. clock (Suc k)) ?cards (get_list (s_members d))"
  let ?pb = "identify_process_bottlenecks ?cards ?lsts"
  have some: "s_cards d \<noteq> None" using ten by (cases "s_cards d") (simp_all add: get_list_def)
  have nonempty: "?cards \<noteq> []" using ten by auto
  have rate: "sm_completion_rate ?sm = 30"
    using metrics_completion_rate [OF wf, of parse "clock 0" ?cards] nonempty ten three by simp
  note quiet = plain_cards_metrics [OF plain, of parse "clock 0" ?lsts]
  from identify_risks_sparse [OF rate quiet [THEN conjunct1] quiet [THEN conjunct2, THEN conjunct1]
      quiet [THEN conjunct2, THEN conjunct2], of ?cards ?tp ?pb]
  obtain w b where risks: "identify_risks ?cards ?sm ?tp ?pb =
       completion_risk_30 #
       (if tp_members_with_high_workload ?tp \<noteq> [] then [w] else []) @
       (if pb_bottlenecks ?pb \<noteq> [] then [b] else [])"
    and w: "r_category w = ''workload_imbalance''" and b: "r_category b = ''process_bottlenecks''"
    by (elim exE conjE)
  have cat: "r_category completion_risk_30 = ''completion_rate''"
    by (simp add: completion_risk_30_def)
  have recs: "generate_recommendations (identify_risks ?cards ?sm ?tp ?pb) ?sm ?tp ?pb =
       rec_completion_rate #
       (if tp_members_with_high_workload ?tp \<noteq> [] then [rec_workload] else []) @
       (if pb_bottlenecks ?pb \<noteq> [] then [rec_process] else [])"
    by (rule recommendations_sparse [OF risks cat w b])
  have present: "completion_risk_30 \<in> set (identify_risks ?cards ?sm ?tp ?pb)"
    unfolding risks by simp
  from analyze_sprint_data_unfold [OF err some, of parse clock] obtain stamp where
    run: "analyze_sprint_data parse clock d =
      Analysis
       \<lparr>ar_timestamp = stamp, ar_sprint_metrics = ?sm, ar_team_performance = ?tp,
        ar_process_bottlenecks = ?pb, ar_burn_down = calculate_burn_down ?cards ?lsts,
        ar_velocity = calculate_velocity ?cards,
        ar_risks = identify_risks ?cards ?sm ?tp ?pb,
        ar_recommendations =
          generate_recommendations (identify_risks ?cards ?sm ?tp ?pb) ?sm ?tp ?pb,
        ar_sprint_end_date = None, ar_days_remaining = None\<rparr>"
    by (elim exE)
  show ?thesis
    unfolding run using rate present recs by simp
qed

text \<open>
  Claim C7, as amended.  For every snapshot without error and with well-formed lists that
  has 10 cards, exactly 3 of them in a list named \<open>Done\<close>, and no labels, comments or due
  dates: the completion rate is 30, the risk \<open>completion_rate\<close> fires with severity
  \<open>high\<close>, and the recommendations are the one for \<open>completion_rate\<close>, followed by the
  one for the workload when some member is reported with a high workload and by the one
  for the process when some list is reported as a bottleneck.  So there is exactly one
  recommendation when neither is reported.
\<close>

theorem sparse_sprint_scenario:
  assumes "s_error d = None"
    and "well_formed_lists (get_list (s_lists d))"
    and "length (get_list (s_cards d)) = 10"
    and "cards_in_list (get_list (s_lists d)) (get_list (s_cards d)) ''Done'' = 3"
    and "list_all plain_card (get_list (s_cards d))"
  shows "\<exists>r. analyze_sprint_data parse clock d = Analysis r \<and>
     sm_completion_rate (ar_sprint_metrics r) = 30 \<and>
     completion_risk_30 \<in> set (ar_risks r) \<and>
     ar_recommendations r =
       rec_completion_rate #
       (if tp_members_with_high_workload (ar_team_performance r) \<noteq> [] then [rec_workload] else []) @
       (if pb_bottlenecks (ar_process_bottlenecks r) \<noteq> [] then [rec_process] else [])"
  using assms by (rule sparse_board_analysis)

lemma ten_cards_facts:
  "length ten_cards = 10" "list_all plain_card ten_cards"
  "\<forall>c\<in>set ten_cards. c_idMembers c = None"
  by (simp_all add: ten_cards_def card_in_def blank_card_def plain_card_def get_list_def)

lemma ten_cards_done:
  "cards_in_list two_lists ten_cards ''Done'' = 3"
  "cards_in_list three_lists ten_cards ''Done'' = 3"
  by code_simp+

lemma lists_well_formed: "well_formed_lists two_lists" "well_formed_lists three_lists"
  by code_simp+

lemma two_lists_no_bottleneck:
  "pb_bottlenecks (identify_process_bottlenecks ten_cards two_lists) = []"
  by code_simp

lemma three_lists_bottleneck:
  "pb_bottlenecks (identify_process_bottlenecks ten_cards three_lists) =
     [\<lparr>bn_list_name = ''To Do'', bn_card_count = 7, bn_ratio_to_avg = 21 / 10\<rparr>]"
  by code_simp

lemma board_of_fields:
  "s_error (board_of cards lsts) = None" "get_list (s_cards (board_of cards lsts)) = cards"
  "get_list (s_lists (board_of cards lsts)) = lsts"
  by (simp_all add: board_of_def get_list_def)

lemma ten_cards_no_workload:
  "tp_members_with_high_workload (analyze_team_performance parse clock ten_cards mbs) = []"
  using team_performance_unassigned [OF ten_cards_facts(3), of parse clock mbs] by simp

theorem sparse_sprint_scenario_witness:
  "recommendations_of (analyze_sprint_data no_parser (frozen_clock 0) (board_of ten_cards two_lists)) =
     [rec_completion_rate]"
proof -
  let ?B = "board_of ten_cards two_lists"
  have h: "s_error ?B = None" "well_formed_lists (get_list (s_lists ?B))"
    "length (get_list (s_cards ?B)) = 10"
    "cards_in_list (get_list (s_lists ?B)) (get_list (s_cards ?B)) ''Done'' = 3"
    "list_all plain_card (get_list (s_cards ?B))"
    by (simp_all add: board_of_fields ten_cards_facts ten_cards_done lists_well_formed)
  from sparse_sprint_scenario [OF h, of no_parser "frozen_clock 0"] obtain r where
    run: "analyze_sprint_data no_parser (frozen_clock 0) ?B = Analysis r"
    and recs: "ar_recommendations r =
       rec_completion_rate #
       (if tp_members_with_high_workload (ar_team_performance r) \<noteq> [] then [rec_workload] else []) @
       (if pb_bottlenecks (ar_process_bottlenecks r) \<noteq> [] then [rec_process] else [])"
    by (elim exE conjE)
  from analyze_sprint_data_unfold [of ?B no_parser "frozen_clock 0"] run
  have parts: "ar_team_performance r =
      analyze_team_performance no_parser (\<lambda>k. frozen_clock 0 (Suc k)) ten_cards
        (get_list (s_members ?B))"
    "ar_process_bottlenecks r = identify_process_bottlenecks ten_cards two_lists"
    by (auto simp: board_of_def get_list_def)
  show ?thesis
    unfolding run using recs
    by (simp add: parts ten_cards_no_workload two_lists_no_bottleneck)
qed

text \<open>
  The claim as stated, exactly one recommendation for every such snapshot, fails: with
  the seven open cards in one of three lists, that list is a bottleneck
  (\<open>7 > 1.5 * 10 / 3\<close>) and a second recommendation is generated.
\<close>

theorem crowded_list_adds_recommendation:
  "length (get_list (s_cards (board_of ten_cards three_lists))) = 10 \<and>
   cards_in_list (get_list (s_lists (board_of ten_cards three_lists)))
     (get_list (s_cards (board_of ten_cards three_lists))) ''Done'' = 3 \<and>
   list_all plain_card (get_list (s_cards (board_of ten_cards three_lists))) \<and>
   recommendations_of
     (analyze_sprint_data no_parser (frozen_clock 0) (board_of ten_cards three_lists)) =
     [rec_completion_rate, rec_process]"
proof -
  let ?B = "board_of ten_cards three_lists"
  have h: "s_error ?B = None" "well_formed_lists (get_list (s_lists ?B))"
    "length (get_list (s_cards ?B)) = 10"
    "cards_in_list (get_list (s_lists ?B)) (get_list (s_cards ?B)) ''Done'' = 3"
    "list_all plain_card (get_list (s_cards ?B))"
    by (simp_all add: board_of_fields ten_cards_facts ten_cards_done lists_well_formed)
  from sparse_board_analysis [OF h, of no_parser "frozen_clock 0"] obtain r where
    run: "analyze_sprint_data no_parser (frozen_clock 0) ?B = Analysis r"
    and recs: "ar_recommendations r =
       rec_completion_rate #
       (if tp_members_with_high_workload (ar_team_performance r) \<noteq> [] then [rec_workload] else []) @
       (if pb_bottlenecks (ar_process_bottlenecks r) \<noteq> [] then [rec_process] else [])"
    by (elim exE conjE)
  from analyze_sprint_data_unfold [of ?B no_parser "frozen_clock 0"] run
  have parts: "ar_team_performance r =
      analyze_team_performance no_parser (\<lambda>k. frozen_clock 0 (Suc k)) ten_cards
        (get_list (s_members ?B))"
    "ar_process_bottlenecks r = identify_process_bottlenecks ten_cards three_lists"
    by (auto simp: board_of_def get_list_def)
  have "recommendations_of (analyze_sprint_data no_parser (frozen_clock 0) ?B) =
     [rec_completion_rate, rec_process]"
    unfolding run using recs
    by (simp add: parts ten_cards_no_workload three_lists_bottleneck)
  then show ?thesis using h(3,4,5) by simp
qed

subsection \<open>Bottleneck detection\<close>

lemma dict_set_fresh: "k \<notin> fst ` set d \<Longrightarrow> dict_set d k v = d @ [(k, v)]"
  by (induction d) auto

lemma list_info_map_explicit:
  assumes "well_formed_lists lsts" "distinct (map l_id lsts)"
    "\<forall>l\<in>set lsts. \<forall>k\<in>fst ` set acc. l_id l \<noteq> Some k"
  shows "list_info_map lsts acc = Inr (acc @ map info_entry lsts)"
  using assms
proof (induction lsts arbitrary: acc)
  case Nil
  then show ?case by simp
next
  case (Cons l ls)
  from Cons.prems(1) obtain j n where j: "l_id l = Some j" and n: "l_name l = Some n"
    by (auto simp: well_formed_lists_def)
  let ?e = "(j, \<lparr>li_name = n, li_pos = list_pos l\<rparr>)"
  have fresh: "j \<notin> fst ` set acc" using Cons.prems(3) j by auto
  have wf: "well_formed_lists ls" using Cons.prems(1) by (simp add: well_formed_lists_def)
  have dis: "distinct (map l_id ls)" using Cons.prems(2) by simp
  have other: "l_id l' \<noteq> Some j" if "l' \<in> set ls" for l'
  proof
    assume "l_id l' = Some j"
    then have "l_id l \<in> set (map l_id ls)" using that j by (metis image_eqI list.set_map)
    then show False using Cons.prems(2) by simp
  qed
  have apart: "\<forall>l'\<in>set ls. \<forall>k\<in>fst ` set (acc @ [?e]). l_id l' \<noteq> Some k"
    using Cons.prems(3) other by auto
  have "list_info_map (l # ls) acc = list_info_map ls (acc @ [?e])"
    using j n fresh by (simp add: dict_set_fresh list_pos_def)
  also have "\<dots> = Inr ((acc @ [?e]) @ map info_entry ls)"
    by (rule Cons.IH [OF wf dis apart])
  finally show ?case using j n by (simp add: info_entry_def get_str_def)
qed

lemma names_of_info:
  "well_formed_lists lsts \<Longrightarrow> map (\<lambda>e. li_name (snd e)) (map info_entry lsts) = names_of lsts"
  by (induction lsts) (auto simp: well_formed_lists_def names_of_def info_entry_def get_str_def)

lemma list_info_map_lookup:
  "list_info_map lsts acc = Inr lm \<Longrightarrow>
   map_option li_name (dict_get lm i) =
     (case find (\<lambda>l. l_id l = Some i) (rev lsts) of
        None \<Rightarrow> map_option li_name (dict_get acc i)
      | Some l \<Rightarrow> l_name l)"
proof (induction lsts arbitrary: acc)
  case Nil
  then show ?case by simp
next
  case (Cons l ls)
  from Cons.prems obtain j n where j: "l_id l = Some j" and n: "l_name l = Some n"
    and rest: "list_info_map ls (dict_set acc j \<lparr>li_name = n, li_pos = (case l_pos l of None \<Rightarrow> 0 | Some p \<Rightarrow> p)\<rparr>) = Inr lm"
    by (auto split: option.splits)
  show ?case
    using Cons.IH [OF rest] j n
    by (auto simp: find_snoc dict_get_set split: option.splits)
qed

lemma count_card_info_tally:
  assumes "list_info_map lsts [] = Inr lm"
  shows "count_card_info lm c d =
     (case list_of_card lsts c of
        None \<Rightarrow> d
      | Some n \<Rightarrow> dict_set d n (dict_get_default d n 0 + 1))"
proof -
  have look: "list_name_of lsts i = map_option li_name (dict_get lm i)" for i
    using list_info_map_lookup [OF assms, of i] by (simp add: list_name_of_def split: option.splits)
  show ?thesis
  proof (cases "c_idList c")
    case None
    then show ?thesis by (simp add: count_card_info_def list_of_card_def)
  next
    case (Some i)
    then show ?thesis
      by (cases "dict_get lm i") (auto simp: count_card_info_def list_of_card_def look)
  qed
qed

text \<open>The zero-initialised dictionary.\<close>

lemma zero_fill_keys:
  "fst ` set (fold (\<lambda>e d. dict_set d (f e) (0::nat)) es d) = fst ` set d \<union> f ` set es"
  by (induction es arbitrary: d) (auto simp: dict_set_key_image)

lemma zero_fill_distinct:
  "distinct (map fst d) \<Longrightarrow> distinct (map fst (fold (\<lambda>e d. dict_set d (f e) (0::nat)) es d))"
  by (induction es arbitrary: d) (auto simp: dict_set_distinct)

lemma zero_fill_zero:
  "\<forall>n. dict_get_default d n 0 = 0 \<Longrightarrow>
   dict_get_default (fold (\<lambda>e d. dict_set d (f e) (0::nat)) es d) n 0 = 0"
proof (induction es arbitrary: d)
  case Nil
  then show ?case by simp
next
  case (Cons e es)
  have "\<forall>n. dict_get_default (dict_set d (f e) 0) n 0 = 0"
    using Cons.prems by (simp add: dict_get_default_def dict_get_set)
  then show ?case using Cons.IH by simp
qed

lemma find_in_set: "find P xs = Some x \<Longrightarrow> x \<in> set xs"
  by (induction xs) (auto split: if_splits)

lemma zero_fill_body:
  "(\<lambda>(list_id, info) d. dict_set d (li_name info) (0::nat)) =
   (\<lambda>e d. dict_set d (li_name (snd e)) 0)"
  by (auto simp: fun_eq_iff)

lemma list_name_of_in_names: "list_name_of lsts i = Some n \<Longrightarrow> n \<in> set (names_of lsts)"
proof -
  assume a: "list_name_of lsts i = Some n"
  then obtain l where "find (\<lambda>l. l_id l = Some i) (rev lsts) = Some l" and n: "l_name l = Some n"
    by (auto simp: list_name_of_def split: option.splits)
  then have "l \<in> set lsts" using find_in_set [of _ "rev lsts" l] by simp
  then show ?thesis using n by (auto simp: names_of_def intro!: bexI [of _ l])
qed

lemma list_of_card_in_names: "list_of_card lsts c = Some n \<Longrightarrow> n \<in> set (names_of lsts)"
  by (auto simp: list_of_card_def list_name_of_in_names split: option.splits if_splits)

lemma bottleneck_dictionary:
  assumes wf: "well_formed_lists lsts" and dis: "distinct (map l_id lsts)"
  shows "\<exists>cbl.
     identify_process_bottlenecks cards lsts =
       \<lparr>pb_error = None, pb_cards_by_list = cbl,
        pb_avg_cards_per_list =
          (if cbl \<noteq> [] then of_nat (sum_list (map snd cbl)) / of_nat (length cbl) else 0),
        pb_bottlenecks =
          bottlenecks_of cbl
            (if cbl \<noteq> [] then of_nat (sum_list (map snd cbl)) / of_nat (length cbl) else 0)\<rparr> \<and>
     distinct (map fst cbl) \<and> fst ` set cbl = set (names_of lsts) \<and>
     (\<forall>n. dict_get_default cbl n 0 = cards_in_list lsts cards n)"
proof -
  let ?lm = "map info_entry lsts"
  let ?zeros = "fold (\<lambda>e d. dict_set d (li_name (snd e)) (0::nat)) ?lm []"
  let ?cbl = "fold (count_card_info ?lm) cards ?zeros"
  have lm: "list_info_map lsts [] = Inr ?lm"
    using list_info_map_explicit [OF wf dis, of "[]"] by simp
  have zero_eq: "fold (\<lambda>(list_id, info) d. dict_set d (li_name info) 0) ?lm [] = ?zeros"
    unfolding zero_fill_body ..
  have step: "\<And>c d. count_card_info ?lm c d =
      (case list_of_card lsts c of None \<Rightarrow> d
       | Some n \<Rightarrow> dict_set d n (dict_get_default d n 0 + 1))"
    by (rule count_card_info_tally [OF lm])
  have zkeys: "fst ` set ?zeros = set (names_of lsts)"
    using zero_fill_keys [of "\<lambda>e. li_name (snd e)" ?lm "[]"] names_of_info [OF wf]
    by (metis (no_types, lifting) empty_set image_empty list.set_map sup_bot.left_neutral)
  have keys: "fst ` set ?cbl = set (names_of lsts)"
    using tally_keys [of "count_card_info ?lm" "list_of_card lsts", OF step, of cards ?zeros]
      list_of_card_in_names [of lsts] zkeys by auto
  have distinct: "distinct (map fst ?cbl)"
    by (rule tally_distinct [of "count_card_info ?lm" "list_of_card lsts", OF step])
       (rule zero_fill_distinct, simp)
  have zz: "dict_get_default ?zeros n 0 = 0" for n
    by (rule zero_fill_zero) (simp add: dict_get_default_def)
  have counts: "dict_get_default ?cbl n 0 = cards_in_list lsts cards n" for n
    using tally_count [of "count_card_info ?lm" "list_of_card lsts", OF step, of cards ?zeros n] zz
    by (simp add: cards_in_list_def)
  have run: "identify_process_bottlenecks cards lsts =
       \<lparr>pb_error = None, pb_cards_by_list = ?cbl,
        pb_avg_cards_per_list =
          (if ?cbl \<noteq> [] then of_nat (sum_list (map snd ?cbl)) / of_nat (length ?cbl) else 0),
        pb_bottlenecks =
          bottlenecks_of ?cbl
            (if ?cbl \<noteq> [] then of_nat (sum_list (map snd ?cbl)) / of_nat (length ?cbl) else 0)\<rparr>"
    by (simp add: identify_process_bottlenecks_def lm Let_def dict_values_def zero_fill_body)
  show ?thesis
    by (rule exI [of _ ?cbl]) (intro conjI run distinct keys allI counts)
qed

lemma dict_entry_value:
  "distinct (map fst d) \<Longrightarrow> (n, v) \<in> set d \<Longrightarrow> dict_get_default d n 0 = (v::nat)"
  using dict_get_Some_iff [of d n v] by (simp add: dict_get_default_def)

lemma bottlenecks_of_names:
  assumes "distinct (map fst cbl)"
  shows "bn_list_name ` set (bottlenecks_of cbl avg) =
           {n \<in> fst ` set cbl. of_nat (dict_get_default cbl n 0) > avg * (3 / 2)}"
proof (rule set_eqI)
  fix n
  have "n \<in> bn_list_name ` set (bottlenecks_of cbl avg) \<longleftrightarrow>
        (\<exists>v. (n, v) \<in> set cbl \<and> of_nat v > avg * (3 / 2))"
    by (auto simp: bottlenecks_of_def image_iff)
  also have "\<dots> \<longleftrightarrow> n \<in> fst ` set cbl \<and> of_nat (dict_get_default cbl n 0) > avg * (3 / 2)"
  proof
    assume "\<exists>v. (n, v) \<in> set cbl \<and> of_nat v > avg * (3 / 2)"
    then obtain v where v: "(n, v) \<in> set cbl" "of_nat v > avg * (3 / 2)" by blast
    have "n \<in> fst ` set cbl" using v(1) by (metis fst_conv image_eqI)
    then show "n \<in> fst ` set cbl \<and> of_nat (dict_get_default cbl n 0) > avg * (3 / 2)"
      using dict_entry_value [OF assms v(1)] v(2) by simp
  next
    assume a: "n \<in> fst ` set cbl \<and> of_nat (dict_get_default cbl n 0) > avg * (3 / 2)"
    then obtain v where v: "(n, v) \<in> set cbl" by auto
    then show "\<exists>v. (n, v) \<in> set cbl \<and> of_nat v > avg * (3 / 2)"
      using dict_entry_value [OF assms v] a by auto
  qed
  finally show "n \<in> bn_list_name ` set (bottlenecks_of cbl avg) \<longleftrightarrow>
      n \<in> {n \<in> fst ` set cbl. of_nat (dict_get_default cbl n 0) > avg * (3 / 2)}"
    by simp
qed

lemma bottlenecks_of_entries:
  assumes "distinct (map fst cbl)" "b \<in> set (bottlenecks_of cbl avg)" "0 \<le> avg"
  shows "bn_card_count b = dict_get_default cbl (bn_list_name b) 0 \<and>
         bn_ratio_to_avg b = of_nat (bn_card_count b) / avg"
proof -
  from assms(2) obtain n v where nv: "(n, v) \<in> set cbl"
    and b: "b = \<lparr>bn_list_name = n, bn_card_count = v,
                 bn_ratio_to_avg = (if avg > 0 then of_nat v / avg else 0)\<rparr>"
    by (auto simp: bottlenecks_of_def)
  have "(if avg > 0 then of_nat v / avg else 0) = of_nat v / avg"
    using assms(3) by (cases "avg = 0") auto
  then show ?thesis
    using b dict_entry_value [OF assms(1) nv] by simp
qed

lemma counts_scenario:
  assumes "map snd cbl = [1, 1, 1, 17::nat]"
  shows "(if cbl \<noteq> [] then of_nat (sum_list (map snd cbl)) / of_nat (length cbl) else 0) = (5::rat)"
    and "map bn_card_count (bottlenecks_of cbl 5) = [17]"
    and "map bn_ratio_to_avg (bottlenecks_of cbl 5) = [17 / 5]"
proof -
  from assms obtain a b c d where cbl: "cbl = [(a, 1), (b, 1), (c, 1), (d, 17)]"
    by (auto simp: map_eq_Cons_conv)
  show "(if cbl \<noteq> [] then of_nat (sum_list (map snd cbl)) / of_nat (length cbl) else 0) = (5::rat)"
    by (simp add: cbl)
  show "map bn_card_count (bottlenecks_of cbl 5) = [17]"
    by (simp add: cbl bottlenecks_of_def)
  show "map bn_ratio_to_avg (bottlenecks_of cbl 5) = [17 / 5]"
    by (simp add: cbl bottlenecks_of_def)
qed

lemma bottleneck_report:
  assumes wf: "well_formed_lists lsts" and dis: "distinct (map l_id lsts)"
  shows "pb_avg_cards_per_list (identify_process_bottlenecks cards lsts) =
           average_per_list lsts cards"
    and "bn_list_name ` set (pb_bottlenecks (identify_process_bottlenecks cards lsts)) =
           {n \<in> set (names_of lsts).
              of_nat (cards_in_list lsts cards n) > 3 / 2 * average_per_list lsts cards}"
    and "\<forall>b\<in>set (pb_bottlenecks (identify_process_bottlenecks cards lsts)).
           bn_card_count b = cards_in_list lsts cards (bn_list_name b) \<and>
           bn_ratio_to_avg b = of_nat (bn_card_count b) / average_per_list lsts cards"
    and "map snd (pb_cards_by_list (identify_process_bottlenecks cards lsts)) = [1, 1, 1, 17] \<longrightarrow>
           pb_avg_cards_per_list (identify_process_bottlenecks cards lsts) = 5 \<and>
           map bn_card_count (pb_bottlenecks (identify_process_bottlenecks cards lsts)) = [17] \<and>
           map bn_ratio_to_avg (pb_bottlenecks (identify_process_bottlenecks cards lsts)) = [17 / 5]"
proof -
  let ?r = "identify_process_bottlenecks cards lsts"
  from bottleneck_dictionary [OF wf dis, of cards] obtain cbl where
    run: "?r = \<lparr>pb_error = None, pb_cards_by_list = cbl,
        pb_avg_cards_per_list =
          (if cbl \<noteq> [] then of_nat (sum_list (map snd cbl)) / of_nat (length cbl) else 0),
        pb_bottlenecks =
          bottlenecks_of cbl
            (if cbl \<noteq> [] then of_nat (sum_list (map snd cbl)) / of_nat (length cbl) else 0)\<rparr>"
    and dist: "distinct (map fst cbl)" and keys: "fst ` set cbl = set (names_of lsts)"
    and counts: "\<forall>n. dict_get_default cbl n 0 = cards_in_list lsts cards n"
    by (elim exE conjE)
  let ?avg = "if cbl \<noteq> [] then of_nat (sum_list (map snd cbl)) / of_nat (length cbl) else (0::rat)"
  have total: "sum_list (map snd cbl) = (\<Sum>n\<in>set (names_of lsts). cards_in_list lsts cards n)"
    using dict_values_sum [OF dist] keys counts by simp
  have "length cbl = card (set (map fst cbl))"
    using distinct_card [OF dist] by simp
  then have size: "length cbl = card (set (names_of lsts))" using keys by simp
  have empty: "cbl = [] \<longleftrightarrow> set (names_of lsts) = {}" using keys by auto
  have avg: "?avg = average_per_list lsts cards"
    using total size empty by (simp add: average_per_list_def)
  have nonneg: "0 \<le> ?avg" by simp
  show a: "pb_avg_cards_per_list ?r = average_per_list lsts cards"
    using run avg by simp
  have bn: "pb_bottlenecks ?r = bottlenecks_of cbl (average_per_list lsts cards)"
    using run avg by simp
  show "bn_list_name ` set (pb_bottlenecks ?r) =
           {n \<in> set (names_of lsts).
              of_nat (cards_in_list lsts cards n) > 3 / 2 * average_per_list lsts cards}"
    unfolding bn bottlenecks_of_names [OF dist] keys using counts
    by (simp add: mult.commute)
  show "\<forall>b\<in>set (pb_bottlenecks ?r).
           bn_card_count b = cards_in_list lsts cards (bn_list_name b) \<and>
           bn_ratio_to_avg b = of_nat (bn_card_count b) / average_per_list lsts cards"
  proof
    fix b
    assume "b \<in> set (pb_bottlenecks ?r)"
    then have "b \<in> set (bottlenecks_of cbl (average_per_list lsts cards))" using bn by simp
    from bottlenecks_of_entries [OF dist this] nonneg avg counts
    show "bn_card_count b = cards_in_list lsts cards (bn_list_name b) \<and>
           bn_ratio_to_avg b = of_nat (bn_card_count b) / average_per_list lsts cards"
      by simp
  qed
  show "map snd (pb_cards_by_list ?r) = [1, 1, 1, 17] \<longrightarrow>
           pb_avg_cards_per_list ?r = 5 \<and>
           map bn_card_count (pb_bottlenecks ?r) = [17] \<and>
           map bn_ratio_to_avg (pb_bottlenecks ?r) = [17 / 5]"
  proof
    assume "map snd (pb_cards_by_list ?r) = [1, 1, 1, 17]"
    then have c: "map snd cbl = [1, 1, 1, 17]" using run by simp
    have five: "?avg = 5" by (rule counts_scenario(1) [OF c])
    show "pb_avg_cards_per_list ?r = 5 \<and>
           map bn_card_count (pb_bottlenecks ?r) = [17] \<and>
           map bn_ratio_to_avg (pb_bottlenecks ?r) = [17 / 5]"
      using run five counts_scenario(2,3) [OF c] by simp
  qed
qed

text \<open>
  Claim C6.  For a board whose lists are well formed and have distinct identifiers, the
  average reported by \<open>identify_process_bottlenecks\<close> is the number of cards in the lists
  divided by the number of distinct list names, and a list is reported as a bottleneck if
  and only if its card count is strictly above 1.5 times that average; a reported
  bottleneck carries its card count and the ratio of the count to the average.  In
  particular, when the per-list counts are \<open>[1, 1, 1, 17]\<close>, the average is 5, the only
  bottleneck is the list with 17 cards, and its ratio is \<open>17 / 5 = 3.4\<close>.
\<close>

theorem bottleneck_above_threshold:
  assumes "well_formed_lists lsts" and "distinct (map l_id lsts)"
  shows "pb_avg_cards_per_list (identify_process_bottlenecks cards lsts) =
           average_per_list lsts cards \<and>
         bn_list_name ` set (pb_bottlenecks (identify_process_bottlenecks cards lsts)) =
           {n \<in> set (names_of lsts).
              of_nat (cards_in_list lsts cards n) > 3 / 2 * average_per_list lsts cards} \<and>
         (\<forall>b\<in>set (pb_bottlenecks (identify_process_bottlenecks cards lsts)).
            bn_card_count b = cards_in_list lsts cards (bn_list_name b) \<and>
            bn_ratio_to_avg b = of_nat (bn_card_count b) / average_per_list lsts cards) \<and>
         (map snd (pb_cards_by_list (identify_process_bottlenecks cards lsts)) = [1, 1, 1, 17] \<longrightarrow>
            pb_avg_cards_per_list (identify_process_bottlenecks cards lsts) = 5 \<and>
            map bn_card_count (pb_bottlenecks (identify_process_bottlenecks cards lsts)) = [17] \<and>
            map bn_ratio_to_avg (pb_bottlenecks (identify_process_bottlenecks cards lsts)) = [17 / 5])"
  by (intro conjI bottleneck_report [OF assms])

lemma four_lists_facts:
  "well_formed_lists four_lists" "distinct (map l_id four_lists)"
  by code_simp+

lemma twenty_cards_counts:
  "map snd (pb_cards_by_list (identify_process_bottlenecks twenty_cards four_lists)) = [1, 1, 1, 17]"
  by code_simp

lemma twenty_cards_crowded:
  "{n \<in> set (names_of four_lists).
      of_nat (cards_in_list four_lists twenty_cards n) >
        3 / 2 * average_per_list four_lists twenty_cards} = {''Done''}"
  by code_simp

theorem bottleneck_above_threshold_witness:
  "pb_avg_cards_per_list (identify_process_bottlenecks twenty_cards four_lists) = 5 \<and>
   bn_list_name ` set (pb_bottlenecks (identify_process_bottlenecks twenty_cards four_lists)) =
     {''Done''} \<and>
   map bn_card_count (pb_bottlenecks (identify_process_bottlenecks twenty_cards four_lists)) = [17] \<and>
   map bn_ratio_to_avg (pb_bottlenecks (identify_process_bottlenecks twenty_cards four_lists)) =
     [17 / 5]"
proof -
  note report = bottleneck_above_threshold [OF four_lists_facts, of twenty_cards]
  have names: "bn_list_name ` set (pb_bottlenecks (identify_process_bottlenecks twenty_cards four_lists)) =
     {''Done''}"
    using report [THEN conjunct2, THEN conjunct1] twenty_cards_crowded by (rule trans)
  have scenario: "pb_avg_cards_per_list (identify_process_bottlenecks twenty_cards four_lists) = 5 \<and>
      map bn_card_count (pb_bottlenecks (identify_process_bottlenecks twenty_cards four_lists)) = [17] \<and>
      map bn_ratio_to_avg (pb_bottlenecks (identify_process_bottlenecks twenty_cards four_lists)) =
        [17 / 5]"
    by (rule report [THEN conjunct2, THEN conjunct2, THEN conjunct2, THEN mp, OF twenty_cards_counts])
  show ?thesis
    by (intro conjI names scenario [THEN conjunct1] scenario [THEN conjunct2, THEN conjunct1]
        scenario [THEN conjunct2, THEN conjunct2])
qed

subsection \<open>High workload\<close>

lemma member_name_map_total:
  "well_formed_members mbs \<Longrightarrow> \<exists>mm. member_name_map mbs acc = Inr mm"
  by (induction mbs arbitrary: acc) (auto simp: well_formed_members_def)

lemma member_name_map_lookup:
  "member_name_map mbs acc = Inr mm \<Longrightarrow>
   dict_get mm i =
     (case find (\<lambda>m. mb_id m = Some i) (rev mbs) of
        None \<Rightarrow> dict_get acc i
      | Some m \<Rightarrow> Some (display_name m))"
proof (induction mbs arbitrary: acc)
  case Nil
  then show ?case by simp
next
  case (Cons m ms)
  from Cons.prems obtain j where j: "mb_id m = Some j"
    and rest: "member_name_map ms (dict_set acc j (display_name m)) = Inr mm"
    by (auto split: option.splits)
  show ?case
    using Cons.IH [OF rest] j
    by (auto simp: find_snoc dict_get_set split: option.splits)
qed

lemma member_name_map_resolves:
  "member_name_map mbs [] = Inr mm \<Longrightarrow> dict_get_default mm i ''Unknown'' = member_name_of mbs i"
  using member_name_map_lookup [of mbs "[]" mm i]
  by (simp add: member_name_of_def dict_get_default_def split: option.splits)

lemma totals_of_keys: "map fst (totals_of d) = map fst d"
  by (simp add: totals_of_def)

lemma totals_of_get:
  "dict_get (totals_of d) n = map_option ms_total (dict_get d n)"
  by (induction d) (auto simp: totals_of_def)

lemma totals_of_set:
  "totals_of (dict_set d n s) = dict_set (totals_of d) n (ms_total s)"
  by (induction d) (auto simp: totals_of_def)

lemma assign_member_totals:
  "totals_of (fst (assign_member parse clock mm c mid st)) =
     dict_set (totals_of (fst st)) (dict_get_default mm mid ''Unknown'')
       (dict_get_default (totals_of (fst st)) (dict_get_default mm mid ''Unknown'') 0 + 1)"
  by (cases "dict_get (fst st) (dict_get_default mm mid ''Unknown'')")
     (simp_all add: assign_member_def Let_def totals_of_set dict_get_default_def totals_of_get
        new_member_stats_def)

lemma assign_members_totals:
  "totals_of (fst (fold (assign_member parse clock mm c) ids st)) =
     fold (\<lambda>n d. dict_set d n (dict_get_default d n 0 + 1))
       (map (\<lambda>i. dict_get_default mm i ''Unknown'') ids) (totals_of (fst st))"
proof (induction ids arbitrary: st)
  case Nil
  then show ?case by simp
next
  case (Cons i ids)
  show ?case
    using Cons.IH [of "assign_member parse clock mm c i st"]
    by (simp add: assign_member_totals)
qed

lemma assign_cards_totals:
  "totals_of (fst (fold (assign_card parse clock mm) cards st)) =
     fold (\<lambda>n d. dict_set d n (dict_get_default d n 0 + 1))
       (map (\<lambda>i. dict_get_default mm i ''Unknown'')
          (concat (map (\<lambda>c. get_list (c_idMembers c)) cards)))
       (totals_of (fst st))"
proof (induction cards arbitrary: st)
  case Nil
  then show ?case by simp
next
  case (Cons c cards)
  show ?case
    using Cons.IH [of "assign_card parse clock mm c st"]
    by (simp add: assign_card_def assign_members_totals)
qed

lemma totals_with_completion_rate:
  "totals_of (map (\<lambda>(member_name, stats). (member_name, with_completion_rate stats)) d) =
   totals_of d"
  by (induction d) (auto simp: totals_of_def with_completion_rate_def)

lemma names_tally:
  "fst ` set (fold (\<lambda>n d. dict_set d n (dict_get_default d n 0 + 1)) names
      ([] :: (string, nat) dict)) = set names"
  "distinct (map fst (fold (\<lambda>n d. dict_set d n (dict_get_default d n 0 + 1)) names
      ([] :: (string, nat) dict)))"
  "dict_get_default (fold (\<lambda>n d. dict_set d n (dict_get_default d n 0 + 1)) names
      ([] :: (string, nat) dict)) n 0 = count_list names n"
proof -
  let ?T = "fold (\<lambda>n d. dict_set d n (dict_get_default d n 0 + 1)) names ([] :: (string, nat) dict)"
  have step: "\<And>c d. (\<lambda>n d. dict_set d n (dict_get_default d n 0 + 1)) c d =
      (case Some c of None \<Rightarrow> d
       | Some n \<Rightarrow> dict_set d n (dict_get_default d n 0 + (1::nat)))"
    by simp
  show "fst ` set ?T = set names"
    using tally_keys [of _ Some, OF step, of names "[]"] by auto
  show "distinct (map fst ?T)"
    by (rule tally_distinct [of _ Some, OF step]) simp
  have "dict_get_default ?T n 0 = length (filter (\<lambda>c. Some c = Some n) names)"
    using tally_count [of _ Some, OF step, of names "[]" n]
    by (simp add: dict_get_default_def)
  also have "\<dots> = count_list names n"
    by (induction names) auto
  finally show "dict_get_default ?T n 0 = count_list names n" .
qed

lemma team_dictionary:
  assumes wf: "well_formed_members mbs"
  shows "\<exists>cbm.
     analyze_team_performance parse clock cards mbs =
       \<lparr>tp_error = None, tp_cards_by_member = cbm,
        tp_avg_cards_per_member =
          (if cbm \<noteq> [] then of_nat (sum_list (map snd (totals_of cbm))) / of_nat (length cbm)
           else 0),
        tp_members_with_high_workload =
          high_workload cbm
            (if cbm \<noteq> [] then of_nat (sum_list (map snd (totals_of cbm))) / of_nat (length cbm)
             else 0),
        tp_member_count = length cbm\<rparr> \<and>
     totals_of cbm =
       fold (\<lambda>n d. dict_set d n (dict_get_default d n 0 + 1)) (assigned_names mbs cards) []"
proof -
  from member_name_map_total [OF wf] obtain mm where mm: "member_name_map mbs [] = Inr mm"
    by blast
  let ?st = "fold (assign_card parse clock mm) cards ([], 0)"
  let ?cbm = "map (\<lambda>(member_name, stats). (member_name, with_completion_rate stats)) (fst ?st)"
  have names: "map (\<lambda>i. dict_get_default mm i ''Unknown'')
          (concat (map (\<lambda>c. get_list (c_idMembers c)) cards)) = assigned_names mbs cards"
    by (simp add: assigned_names_def member_name_map_resolves [OF mm])
  have totals: "totals_of ?cbm =
       fold (\<lambda>n d. dict_set d n (dict_get_default d n 0 + 1)) (assigned_names mbs cards) []"
  proof -
    have "totals_of ?cbm = totals_of (fst ?st)"
      by (rule totals_with_completion_rate)
    also have "\<dots> = fold (\<lambda>n d. dict_set d n (dict_get_default d n 0 + 1))
       (map (\<lambda>i. dict_get_default mm i ''Unknown'')
          (concat (map (\<lambda>c. get_list (c_idMembers c)) cards)))
       (totals_of (fst (([], 0) :: (string, member_stats) dict \<times> nat)))"
      by (rule assign_cards_totals)
    also have "\<dots> = fold (\<lambda>n d. dict_set d n (dict_get_default d n 0 + 1))
       (assigned_names mbs cards) []"
      unfolding names by (simp add: totals_of_def)
    finally show ?thesis .
  qed
  have sum: "sum_list (map (\<lambda>(member_name, stats). ms_total stats) ?cbm) =
      sum_list (map snd (totals_of ?cbm))"
    by (simp add: totals_of_def case_prod_beta comp_def)
  have run: "analyze_team_performance parse clock cards mbs =
       \<lparr>tp_error = None, tp_cards_by_member = ?cbm,
        tp_avg_cards_per_member =
          (if ?cbm \<noteq> [] then of_nat (sum_list (map snd (totals_of ?cbm))) / of_nat (length ?cbm)
           else 0),
        tp_members_with_high_workload =
          high_workload ?cbm
            (if ?cbm \<noteq> [] then of_nat (sum_list (map snd (totals_of ?cbm))) / of_nat (length ?cbm)
             else 0),
        tp_member_count = length ?cbm\<rparr>"
    unfolding sum [symmetric]
    by (simp add: analyze_team_performance_def analyze_team_performance_clocked_def mm Let_def)
  show ?thesis
    by (rule exI [of _ ?cbm]) (intro conjI run totals)
qed

lemma dict_filter_keys:
  assumes "distinct (map fst d)"
  shows "{n. \<exists>v. (n, v) \<in> set d \<and> P v} =
         {n \<in> fst ` set d. P (dict_get_default d n (0::nat))}"
proof (rule set_eqI)
  fix n
  show "n \<in> {n. \<exists>v. (n, v) \<in> set d \<and> P v} \<longleftrightarrow>
        n \<in> {n \<in> fst ` set d. P (dict_get_default d n 0)}"
  proof
    assume "n \<in> {n. \<exists>v. (n, v) \<in> set d \<and> P v}"
    then obtain v where v: "(n, v) \<in> set d" "P v" by blast
    have "n \<in> fst ` set d" using v(1) by (metis fst_conv image_eqI)
    then show "n \<in> {n \<in> fst ` set d. P (dict_get_default d n 0)}"
      using dict_entry_value [OF assms v(1)] v(2) by simp
  next
    assume a: "n \<in> {n \<in> fst ` set d. P (dict_get_default d n 0)}"
    then obtain v where v: "(n, v) \<in> set d" by auto
    then show "n \<in> {n. \<exists>v. (n, v) \<in> set d \<and> P v}"
      using dict_entry_value [OF assms v] a by auto
  qed
qed

lemma high_workload_names:
  "we_name ` set (high_workload cbm avg) =
     {n. \<exists>v. (n, v) \<in> set (totals_of cbm) \<and> of_nat v > avg * (3 / 2)}"
  by (auto simp: high_workload_def totals_of_def image_iff) force+

lemma team_report:
  assumes wf: "well_formed_members mbs"
  shows "tp_avg_cards_per_member (analyze_team_performance parse clock cards mbs) =
           average_assignments mbs cards"
    and "we_name ` set (tp_members_with_high_workload
             (analyze_team_performance parse clock cards mbs)) =
           {n \<in> set (assigned_names mbs cards).
              of_nat (member_total mbs cards n) > 3 / 2 * average_assignments mbs cards}"
proof -
  let ?names = "assigned_names mbs cards"
  let ?r = "analyze_team_performance parse clock cards mbs"
  from team_dictionary [OF wf, of parse clock cards] obtain cbm where
    run: "?r =
       \<lparr>tp_error = None, tp_cards_by_member = cbm,
        tp_avg_cards_per_member =
          (if cbm \<noteq> [] then of_nat (sum_list (map snd (totals_of cbm))) / of_nat (length cbm)
           else 0),
        tp_members_with_high_workload =
          high_workload cbm
            (if cbm \<noteq> [] then of_nat (sum_list (map snd (totals_of cbm))) / of_nat (length cbm)
             else 0),
        tp_member_count = length cbm\<rparr>"
    and T: "totals_of cbm =
       fold (\<lambda>n d. dict_set d n (dict_get_default d n 0 + 1)) ?names []"
    by (elim exE conjE)
  have keys: "fst ` set (totals_of cbm) = set ?names"
    unfolding T by (rule names_tally(1))
  have dist: "distinct (map fst (totals_of cbm))"
    unfolding T by (rule names_tally(2))
  have counts: "dict_get_default (totals_of cbm) n 0 = count_list ?names n" for n
    unfolding T by (rule names_tally(3))
  have "sum_list (map snd (totals_of cbm)) = (\<Sum>n\<in>set ?names. count_list ?names n)"
    using dict_values_sum [OF dist] keys counts by simp
  then have total: "sum_list (map snd (totals_of cbm)) = length ?names"
    by (simp add: sum_count_set)
  have "length cbm = length (map fst (totals_of cbm))" by (simp add: totals_of_def)
  also have "\<dots> = card (set (map fst (totals_of cbm)))"
    using distinct_card [OF dist] by simp
  finally have size: "length cbm = card (set ?names)" using keys by simp
  have empty: "cbm = [] \<longleftrightarrow> ?names = []"
    using keys by (auto simp: totals_of_def)
  let ?avg = "if cbm \<noteq> [] then of_nat (sum_list (map snd (totals_of cbm))) / of_nat (length cbm)
              else (0::rat)"
  have avg: "?avg = average_assignments mbs cards"
    using total size empty by (simp add: average_assignments_def)
  show "tp_avg_cards_per_member ?r = average_assignments mbs cards"
    using run avg by simp
  have "we_name ` set (tp_members_with_high_workload ?r) =
      we_name ` set (high_workload cbm (average_assignments mbs cards))"
    using run avg by simp
  also have "\<dots> = {n \<in> fst ` set (totals_of cbm).
      of_nat (dict_get_default (totals_of cbm) n 0) > average_assignments mbs cards * (3 / 2)}"
    unfolding high_workload_names by (rule dict_filter_keys [OF dist])
  also have "\<dots> = {n \<in> set ?names.
      of_nat (member_total mbs cards n) > 3 / 2 * average_assignments mbs cards}"
    unfolding keys by (simp add: counts member_total_def mult.commute)
  finally show "we_name ` set (tp_members_with_high_workload ?r) =
           {n \<in> set ?names.
              of_nat (member_total mbs cards n) > 3 / 2 * average_assignments mbs cards}" .
qed

text \<open>
  Claim C5.  For every card list and every member list whose members have identifiers,
  the average reported by \<open>analyze_team_performance\<close> is the number of assignments
  divided by the number of referenced members, the members reported with a high workload
  are exactly the referenced members whose number of assignments is strictly above 1.5
  times that average, so the report is non-empty if and only if there is such a member,
  and a member whose total equals 1.5 times the average is not reported.  Members are
  told apart by the name their identifier resolves to, as the source does.
\<close>

theorem high_workload_above_threshold:
  assumes "well_formed_members mbs"
  shows "tp_avg_cards_per_member (analyze_team_performance parse clock cards mbs) =
           average_assignments mbs cards \<and>
         we_name ` set (tp_members_with_high_workload
             (analyze_team_performance parse clock cards mbs)) =
           {n \<in> set (assigned_names mbs cards).
              of_nat (member_total mbs cards n) > 3 / 2 * average_assignments mbs cards} \<and>
         (tp_members_with_high_workload (analyze_team_performance parse clock cards mbs) \<noteq> [] \<longleftrightarrow>
            (\<exists>n\<in>set (assigned_names mbs cards).
               of_nat (member_total mbs cards n) > 3 / 2 * average_assignments mbs cards)) \<and>
         (\<forall>n. of_nat (member_total mbs cards n) = 3 / 2 * average_assignments mbs cards \<longrightarrow>
            n \<notin> we_name ` set (tp_members_with_high_workload
                   (analyze_team_performance parse clock cards mbs)))"
proof -
  note names = team_report(2) [OF assms, of parse clock cards]
  have a: "tp_avg_cards_per_member (analyze_team_performance parse clock cards mbs) =
           average_assignments mbs cards"
    by (rule team_report(1) [OF assms])
  have c: "tp_members_with_high_workload (analyze_team_performance parse clock cards mbs) \<noteq> [] \<longleftrightarrow>
            (\<exists>n\<in>set (assigned_names mbs cards).
               of_nat (member_total mbs cards n) > 3 / 2 * average_assignments mbs cards)"
  proof -
    have "tp_members_with_high_workload (analyze_team_performance parse clock cards mbs) \<noteq> [] \<longleftrightarrow>
        we_name ` set (tp_members_with_high_workload
             (analyze_team_performance parse clock cards mbs)) \<noteq> {}"
      by auto
    then show ?thesis unfolding names by auto
  qed
  have d: "\<forall>n. of_nat (member_total mbs cards n) = 3 / 2 * average_assignments mbs cards \<longrightarrow>
            n \<notin> we_name ` set (tp_members_with_high_workload
                   (analyze_team_performance parse clock cards mbs))"
    unfolding names by simp
  show ?thesis by (intro conjI a names c d)
qed

lemma team_well_formed: "well_formed_members team"
  by code_simp

lemma boundary_cards_facts:
  "rat_of_nat (member_total team boundary_cards ''Ada'') =
     3 / 2 * average_assignments team boundary_cards"
  "\<not> (\<exists>n\<in>set (assigned_names team boundary_cards).
        rat_of_nat (member_total team boundary_cards n) >
          3 / 2 * average_assignments team boundary_cards)"
  by code_simp+

lemma loaded_cards_facts:
  "{n \<in> set (assigned_names team loaded_cards).
      rat_of_nat (member_total team loaded_cards n) >
        3 / 2 * average_assignments team loaded_cards} = {''Ada''}"
  by code_simp

theorem high_workload_above_threshold_witness:
  "rat_of_nat (member_total team boundary_cards ''Ada'') =
     3 / 2 * average_assignments team boundary_cards \<and>
   tp_members_with_high_workload
     (analyze_team_performance no_parser (frozen_clock 0) boundary_cards team) = [] \<and>
   we_name ` set (tp_members_with_high_workload
     (analyze_team_performance no_parser (frozen_clock 0) loaded_cards team)) = {''Ada''}"
proof -
  note boundary =
    high_workload_above_threshold [OF team_well_formed, of no_parser "frozen_clock 0" boundary_cards]
  note loaded =
    high_workload_above_threshold [OF team_well_formed, of no_parser "frozen_clock 0" loaded_cards]
  have none: "tp_members_with_high_workload
     (analyze_team_performance no_parser (frozen_clock 0) boundary_cards team) = []"
    using boundary [THEN conjunct2, THEN conjunct2, THEN conjunct1] boundary_cards_facts(2)
    by blast
  have one: "we_name ` set (tp_members_with_high_workload
     (analyze_team_performance no_parser (frozen_clock 0) loaded_cards team)) = {''Ada''}"
    using loaded [THEN conjunct2, THEN conjunct1] loaded_cards_facts by (rule trans)
  show ?thesis
    by (intro conjI boundary_cards_facts(1) none one)
qed

end
